theory Spec2Isabelle
  imports Complex_Main "HOL-Library.Word"
begin

unbundle bit_operations_syntax

section \<open>The JKBMS device object\<close>

text \<open>
  A shallow embedding of \<^verbatim>\<open>src/src/libs/JKBMS.cpp\<close> and \<^verbatim>\<open>JKBMS.h\<close>: the
  notification handler with its frame reassembly, the three decoders it dispatches to,
  the checksum and the command frame of \<^verbatim>\<open>writeRegister\<close>.

  Conventions of the model.
  \<^item> \<^verbatim>\<open>uint8_t\<close>/\<^verbatim>\<open>byte\<close> is \<open>8 word\<close>, \<^verbatim>\<open>uint32_t\<close> is \<open>32 word\<close>. An
    expression of C++ type \<^verbatim>\<open>int\<close> built from shifted bytes is computed as a
    \<open>32 word\<close> and read with \<open>sint\<close>, which is what the 32-bit target does when a
    byte of \<^verbatim>\<open>0x80\<close> or more is shifted into the sign bit.
  \<^item> The counters \<^verbatim>\<open>frame\<close> and \<^verbatim>\<open>ignoreNotifyCount\<close> are C++ \<^verbatim>\<open>int\<close>s
    that are only incremented below 300 and decremented above 0; they are modelled as
    \<open>int\<close>.
  \<^item> A \<^verbatim>\<open>float\<close> field holds a \<open>real\<close>: the exact value of the product the source
    computes. Rounding to binary floating point is not modelled.
  \<^item> \<^verbatim>\<open>receivedBytes\<close> is a list of bytes, 320 long in every state the constructor
    and the handler produce. A write through the cursor outside \<open>0..319\<close> is undefined
    behaviour in C++; the model returns \<open>None\<close> there.
  \<^item> The BLE members (\<^verbatim>\<open>pChr\<close>, \<^verbatim>\<open>advDevice\<close>, \<^verbatim>\<open>connected\<close>,
    \<^verbatim>\<open>doConnect\<close>, \<^verbatim>\<open>targetMAC\<close>) belong to the transport and are left out;
    \<^verbatim>\<open>millis()\<close> is an argument of the handler; the debug macros print only.
\<close>

type_synonym u8 = "8 word"
type_synonym u32 = "32 word"

record jkbms =
  lastNotifyTime :: u32
  receivedBytes :: "u8 list"
  frame :: int
  received_start :: bool
  received_complete :: bool
  new_data :: bool
  ignoreNotifyCount :: int
  cellVoltage :: "real list"
  wireResist :: "real list"
  Average_Cell_Voltage :: real
  Delta_Cell_Voltage :: real
  Battery_Voltage :: real
  Battery_Power :: real
  Charge_Current :: real
  Battery_T1 :: real
  Battery_T2 :: real
  MOS_Temp :: real
  Percent_Remain :: int
  Capacity_Remain :: real
  Nominal_Capacity :: real
  Cycle_Count :: real
  Cycle_Capacity :: real
  Uptime :: u32
  sec :: u8
  mi :: u8
  hr :: u8
  days :: u8
  Balance_Curr :: real
  Balance :: bool
  Charge :: bool
  Discharge :: bool
  Balancing_Action :: int
  balance_trigger_voltage :: real
  cell_voltage_undervoltage_protection :: real
  cell_voltage_undervoltage_recovery :: real
  cell_voltage_overvoltage_protection :: real
  cell_voltage_overvoltage_recovery :: real
  power_off_voltage :: real
  max_charge_current :: real
  charge_overcurrent_protection_delay :: real
  charge_overcurrent_protection_recovery_time :: real
  max_discharge_current :: real
  discharge_overcurrent_protection_delay :: real
  discharge_overcurrent_protection_recovery_time :: real
  short_circuit_protection_recovery_time :: real
  max_balance_current :: real
  charge_overtemperature_protection :: real
  charge_overtemperature_protection_recovery :: real
  discharge_overtemperature_protection :: real
  discharge_overtemperature_protection_recovery :: real
  charge_undertemperature_protection :: real
  charge_undertemperature_protection_recovery :: real
  power_tube_overtemperature_protection :: real
  power_tube_overtemperature_protection_recovery :: real
  cell_count :: int
  total_battery_capacity :: real
  short_circuit_protection_delay :: real
  balance_starting_voltage :: real

text \<open>
  The constructor \<^verbatim>\<open>JKBMS::JKBMS\<close> with the member initialisers of the header.
  \<^verbatim>\<open>Uptime\<close>, \<^verbatim>\<open>sec\<close>, \<^verbatim>\<open>mi\<close>, \<^verbatim>\<open>hr\<close> and \<^verbatim>\<open>days\<close> have no initialiser:
  their first values are arguments.
\<close>

definition JKBMS_init :: "u32 \<Rightarrow> u8 \<Rightarrow> u8 \<Rightarrow> u8 \<Rightarrow> u8 \<Rightarrow> jkbms" where
  "JKBMS_init up0 sec0 mi0 hr0 days0 =
    \<lparr> lastNotifyTime = 0,
      receivedBytes = replicate 320 0,
      frame = 0,
      received_start = False,
      received_complete = False,
      new_data = False,
      ignoreNotifyCount = 0,
      cellVoltage = replicate 16 0,
      wireResist = replicate 16 0,
      Average_Cell_Voltage = 0,
      Delta_Cell_Voltage = 0,
      Battery_Voltage = 0,
      Battery_Power = 0,
      Charge_Current = 0,
      Battery_T1 = 0,
      Battery_T2 = 0,
      MOS_Temp = 0,
      Percent_Remain = 0,
      Capacity_Remain = 0,
      Nominal_Capacity = 0,
      Cycle_Count = 0,
      Cycle_Capacity = 0,
      Uptime = up0,
      sec = sec0,
      mi = mi0,
      hr = hr0,
      days = days0,
      Balance_Curr = 0,
      Balance = False,
      Charge = False,
      Discharge = False,
      Balancing_Action = 0,
      balance_trigger_voltage = 0,
      cell_voltage_undervoltage_protection = 0,
      cell_voltage_undervoltage_recovery = 0,
      cell_voltage_overvoltage_protection = 0,
      cell_voltage_overvoltage_recovery = 0,
      power_off_voltage = 0,
      max_charge_current = 0,
      charge_overcurrent_protection_delay = 0,
      charge_overcurrent_protection_recovery_time = 0,
      max_discharge_current = 0,
      discharge_overcurrent_protection_delay = 0,
      discharge_overcurrent_protection_recovery_time = 0,
      short_circuit_protection_recovery_time = 0,
      max_balance_current = 0,
      charge_overtemperature_protection = 0,
      charge_overtemperature_protection_recovery = 0,
      discharge_overtemperature_protection = 0,
      discharge_overtemperature_protection_recovery = 0,
      charge_undertemperature_protection = 0,
      charge_undertemperature_protection_recovery = 0,
      power_tube_overtemperature_protection = 0,
      power_tube_overtemperature_protection_recovery = 0,
      cell_count = 0,
      total_battery_capacity = 0,
      short_circuit_protection_delay = 0,
      balance_starting_voltage = 0 \<rparr>"

section \<open>Reading the frame buffer\<close>

text \<open>
  \<^verbatim>\<open>rb[i+1] << 8 | rb[i]\<close> and
  \<^verbatim>\<open>rb[i+3] << 24 | rb[i+2] << 16 | rb[i+1] << 8 | rb[i]\<close>: each byte is promoted to
  \<^verbatim>\<open>int\<close> before the shift, and the result is an \<^verbatim>\<open>int\<close>.
\<close>

definition int16_at :: "u8 list \<Rightarrow> nat \<Rightarrow> u32" where
  "int16_at rb i = push_bit 8 (ucast (rb ! (i + 1))) OR ucast (rb ! i)"

definition int32_at :: "u8 list \<Rightarrow> nat \<Rightarrow> u32" where
  "int32_at rb i =
     push_bit 24 (ucast (rb ! (i + 3))) OR push_bit 16 (ucast (rb ! (i + 2)))
       OR push_bit 8 (ucast (rb ! (i + 1))) OR ucast (rb ! i)"

text \<open>\<^verbatim>\<open>n * k\<close> for an \<^verbatim>\<open>int\<close> \<open>n\<close> and a floating constant \<open>k\<close>.\<close>

definition scaled :: "u32 \<Rightarrow> real \<Rightarrow> real" where
  "scaled n k = real_of_int (sint n) * k"

text \<open>
  The temperature pattern of \<^verbatim>\<open>parseData\<close> (lines 470-474, 483-487, 489-493), with the
  low byte at offset \<open>i\<close>:
  \<^verbatim>\<open>if (rb[i+1] == 0xFF) T = (0xFF << 24 | 0xFF << 16 | rb[i+1] << 8 | rb[i]) * 0.1;
  else T = (rb[i+1] << 8 | rb[i]) * 0.1;\<close>
\<close>

definition temp_at :: "u8 list \<Rightarrow> nat \<Rightarrow> real" where
  "temp_at rb i =
     (if rb ! (i + 1) = 0xFF
      then scaled (push_bit 24 0xFF OR push_bit 16 0xFF
                     OR push_bit 8 (ucast (rb ! (i + 1))) OR ucast (rb ! i)) (1 / 10)
      else scaled (int16_at rb i) (1 / 10))"

text \<open>
  The two filling loops of \<^verbatim>\<open>parseData\<close>,
  \<^verbatim>\<open>for (int j = 0, i = START; i < LIMIT; j++, i += 2) arr[j] = (rb[i] << 8 | rb[i-1]) * 0.001;\<close>
  with \<open>START = 7, LIMIT = 38\<close> for the cell voltages and \<open>START = 81, LIMIT = 112\<close> for
  the wire resistances.
\<close>

function fill_loop :: "u8 list \<Rightarrow> nat \<Rightarrow> nat \<Rightarrow> nat \<Rightarrow> real list \<Rightarrow> real list" where
  "fill_loop rb limit j i arr =
     (if i < limit
      then fill_loop rb limit (j + 1) (i + 2) (arr[j := scaled (int16_at rb (i - 1)) (1 / 1000)])
      else arr)"
  by pat_completeness auto
termination
  by (relation "measure (\<lambda>(rb, limit, j, i, arr). limit - i)") auto

section \<open>The decoders\<close>

text \<open>\<^verbatim>\<open>JKBMS::parseData\<close> (lines 453-561).\<close>

definition parseData :: "jkbms \<Rightarrow> jkbms" where
  "parseData s =
    (let rb = receivedBytes s;
         bv = scaled (int32_at rb 150) (1 / 1000);
         cc = scaled (int32_at rb 158) (1 / 1000);
         b171 = (ucast (rb ! 171) :: u32);
         up0 = (push_bit 16 (ucast (rb ! 196)) OR push_bit 8 (ucast (rb ! 195))
                  OR ucast (rb ! 194) :: u32);
         up1 = up0 div 60;
         up2 = up1 div 60
     in s\<lparr> new_data := False,
           ignoreNotifyCount := 10,
           cellVoltage := fill_loop rb 38 0 7 (cellVoltage s),
           Average_Cell_Voltage := scaled (int16_at rb 74) (1 / 1000),
           Delta_Cell_Voltage := scaled (int16_at rb 76) (1 / 1000),
           wireResist := fill_loop rb 112 0 81 (wireResist s),
           MOS_Temp := temp_at rb 144,
           Battery_Voltage := bv,
           Charge_Current := cc,
           Battery_Power := bv * cc,
           Battery_T1 := temp_at rb 162,
           Battery_T2 := temp_at rb 164,
           Balance_Curr :=
             (if b171 AND 0xF0 = 0x0
              then scaled (push_bit 8 b171 OR ucast (rb ! 170)) (1 / 1000)
              else if b171 AND 0xF0 = 0xF0
              then scaled (push_bit 8 (b171 AND 0x0F) OR ucast (rb ! 170)) (- (1 / 1000))
              else Balance_Curr s),
           Balancing_Action := uint (rb ! 172),
           Percent_Remain := uint (rb ! 173),
           Capacity_Remain := scaled (int32_at rb 174) (1 / 1000),
           Nominal_Capacity := scaled (int32_at rb 178) (1 / 1000),
           Cycle_Count := real_of_int (sint (int32_at rb 182)),
           Cycle_Capacity := scaled (int32_at rb 186) (1 / 1000),
           sec := ucast (up0 mod 60),
           mi := ucast (up1 mod 60),
           hr := ucast (up2 mod 24),
           days := ucast (up2 div 24),
           Uptime := up2,
           Charge := (if rb ! 198 > 0 then True else if rb ! 198 = 0 then False else Charge s),
           Discharge :=
             (if rb ! 199 > 0 then True else if rb ! 199 = 0 then False else Discharge s),
           Balance := (if rb ! 201 > 0 then True else if rb ! 201 = 0 then False else Balance s)
         \<rparr>)"

text \<open>\<^verbatim>\<open>JKBMS::bms_settings\<close> (lines 335-394).\<close>

definition bms_settings :: "jkbms \<Rightarrow> jkbms" where
  "bms_settings s =
    (let rb = receivedBytes s
     in s\<lparr> cell_voltage_undervoltage_protection := scaled (int32_at rb 10) (1 / 1000),
           cell_voltage_undervoltage_recovery := scaled (int32_at rb 14) (1 / 1000),
           cell_voltage_overvoltage_protection := scaled (int32_at rb 18) (1 / 1000),
           cell_voltage_overvoltage_recovery := scaled (int32_at rb 22) (1 / 1000),
           balance_trigger_voltage := scaled (int32_at rb 26) (1 / 1000),
           power_off_voltage := scaled (int32_at rb 46) (1 / 1000),
           max_charge_current := scaled (int32_at rb 50) (1 / 1000),
           charge_overcurrent_protection_delay := real_of_int (sint (int32_at rb 54)),
           charge_overcurrent_protection_recovery_time := real_of_int (sint (int32_at rb 58)),
           max_discharge_current := scaled (int32_at rb 62) (1 / 1000),
           discharge_overcurrent_protection_delay := real_of_int (sint (int32_at rb 66)),
           discharge_overcurrent_protection_recovery_time :=
             real_of_int (sint (int32_at rb 70)),
           short_circuit_protection_recovery_time := real_of_int (sint (int32_at rb 74)),
           max_balance_current := scaled (int32_at rb 78) (1 / 1000),
           charge_overtemperature_protection := scaled (int32_at rb 82) (1 / 10),
           charge_overtemperature_protection_recovery := scaled (int32_at rb 86) (1 / 10),
           discharge_overtemperature_protection := scaled (int32_at rb 90) (1 / 10),
           discharge_overtemperature_protection_recovery := scaled (int32_at rb 94) (1 / 10),
           charge_undertemperature_protection := scaled (int32_at rb 98) (1 / 10),
           charge_undertemperature_protection_recovery := scaled (int32_at rb 102) (1 / 10),
           power_tube_overtemperature_protection := scaled (int32_at rb 106) (1 / 10),
           power_tube_overtemperature_protection_recovery := scaled (int32_at rb 110) (1 / 10),
           cell_count := sint (int32_at rb 114),
           total_battery_capacity := scaled (int32_at rb 130) (1 / 1000),
           short_circuit_protection_delay := real_of_int (sint (int32_at rb 134 * 1)),
           balance_starting_voltage := scaled (int32_at rb 138) (1 / 1000)
         \<rparr>)"

text \<open>
  \<^verbatim>\<open>JKBMS::parseDeviceInfo\<close> (lines 401-446) clears \<^verbatim>\<open>new_data\<close>, and then only
  reads: what it extracts goes to local variables that are printed and dropped.
\<close>

definition parseDeviceInfo :: "jkbms \<Rightarrow> jkbms" where
  "parseDeviceInfo s = s\<lparr>new_data := False\<rparr>"

text \<open>The \<^verbatim>\<open>switch (receivedBytes[4])\<close> of lines 270-286.\<close>

definition dispatch :: "jkbms \<Rightarrow> jkbms" where
  "dispatch s =
     (let t = receivedBytes s ! 4
      in if t = 0x01 then bms_settings s
         else if t = 0x02 then parseData s
         else if t = 0x03 then parseDeviceInfo s
         else s)"

section \<open>The notification handler\<close>

text \<open>The test of line 242, made after \<^verbatim>\<open>length >= 4\<close> is known.\<close>

definition is_start :: "u8 list \<Rightarrow> bool" where
  "is_start pData \<longleftrightarrow>
     pData ! 0 = 0x55 \<and> pData ! 1 = 0xAA \<and> pData ! 2 = 0xEB \<and> pData ! 3 = 0x90"

text \<open>\<^verbatim>\<open>receivedBytes[frame++] = b\<close> on the array of 320 bytes.\<close>

definition put_byte :: "jkbms \<Rightarrow> u8 \<Rightarrow> jkbms option" where
  "put_byte s b =
     (if 0 \<le> frame s \<and> frame s < 320
      then Some (s\<lparr>receivedBytes := (receivedBytes s)[nat (frame s) := b],
                   frame := frame s + 1\<rparr>)
      else None)"

text \<open>
  The loop of the start branch (lines 249-251):
  \<^verbatim>\<open>for (int i = 0; i < length && frame < 300; i++) receivedBytes[frame++] = pData[i];\<close>
  The recursion is over the bytes of the chunk that are still to be read.
\<close>

fun store_chunk :: "jkbms \<Rightarrow> u8 list \<Rightarrow> jkbms option" where
  "store_chunk s [] = Some s"
| "store_chunk s (b # bs) =
     (if frame s < 300
      then (case put_byte s b of None \<Rightarrow> None | Some s1 \<Rightarrow> store_chunk s1 bs)
      else Some s)"

text \<open>
  The loop of the continuation branch (lines 258-290). When the cursor reaches 300 the
  body sets the three flags, runs the \<^verbatim>\<open>switch\<close> and leaves the loop with
  \<^verbatim>\<open>break\<close>, and the function ends. The model returns the state as it is when the
  \<^verbatim>\<open>switch\<close> is entered together with \<open>True\<close>, and \<open>False\<close> when the loop ends without
  completing a frame; \<open>handleNotification\<close> below applies \<open>dispatch\<close> to the former.
\<close>

fun append_chunk :: "jkbms \<Rightarrow> u8 list \<Rightarrow> (jkbms \<times> bool) option" where
  "append_chunk s [] = Some (s, False)"
| "append_chunk s (b # bs) =
     (if frame s < 300
      then (case put_byte s b of
              None \<Rightarrow> None
            | Some s1 \<Rightarrow>
                if frame s1 \<ge> 300
                then Some (s1\<lparr>received_complete := True, received_start := False,
                               new_data := True\<rparr>, True)
                else append_chunk s1 bs)
      else Some (s, False))"

text \<open>
  \<^verbatim>\<open>JKBMS::handleNotification\<close> (lines 224-296) up to the \<^verbatim>\<open>switch\<close>: the new state
  and whether a frame was completed, in which case the \<^verbatim>\<open>switch\<close> is the one thing
  left to run.
\<close>

definition reassemble :: "jkbms \<Rightarrow> u32 \<Rightarrow> u8 list \<Rightarrow> (jkbms \<times> bool) option" where
  "reassemble s now pData =
     (let s0 = s\<lparr>lastNotifyTime := now\<rparr>
      in if ignoreNotifyCount s0 > 0
         then Some (s0\<lparr>ignoreNotifyCount := ignoreNotifyCount s0 - 1\<rparr>, False)
         else if length pData < 4 then Some (s0, False)
         else if is_start pData
         then (case store_chunk
                      (s0\<lparr>frame := 0, received_start := True, received_complete := False\<rparr>)
                      pData of
                 None \<Rightarrow> None
               | Some s1 \<Rightarrow> Some (s1, False))
         else if received_start s0 \<and> \<not> received_complete s0
         then append_chunk s0 pData
         else Some (s0, False))"

definition handleNotification :: "jkbms \<Rightarrow> u32 \<Rightarrow> u8 list \<Rightarrow> jkbms option" where
  "handleNotification s now pData =
     (case reassemble s now pData of
        None \<Rightarrow> None
      | Some (t, completed) \<Rightarrow> Some (if completed then dispatch t else t))"

text \<open>A sequence of deliveries, each with its time stamp; undefined behaviour is final.\<close>

fun deliver :: "jkbms \<Rightarrow> (u32 \<times> u8 list) list \<Rightarrow> jkbms option" where
  "deliver s [] = Some s"
| "deliver s ((now, pData) # rest) =
     (case handleNotification s now pData of None \<Rightarrow> None | Some s1 \<Rightarrow> deliver s1 rest)"

section \<open>Checksum and command frame\<close>

text \<open>\<^verbatim>\<open>JKBMS::crc\<close> (lines 570-574): the sum of \<open>data[0..len-1]\<close> in a \<^verbatim>\<open>uint8_t\<close>.\<close>

definition crc :: "u8 list \<Rightarrow> nat \<Rightarrow> u8" where
  "crc data len = fold (\<lambda>i c. c + data ! i) [0..<len] 0"

text \<open>
  The local array \<^verbatim>\<open>frame\<close> of \<^verbatim>\<open>JKBMS::writeRegister\<close> (lines 305-316) as it is
  handed to the characteristic: the initialiser list, the four bytes of the value, the
  checksum.
\<close>

definition writeRegister_frame :: "u8 \<Rightarrow> u32 \<Rightarrow> u8 \<Rightarrow> u8 list" where
  "writeRegister_frame address val len =
     (let f0 = [0xAA, 0x55, 0x90, 0xEB, address, len] @ replicate 14 0;
          f1 = f0[6 := ucast (drop_bit 0 val)];
          f2 = f1[7 := ucast (drop_bit 8 val)];
          f3 = f2[8 := ucast (drop_bit 16 val)];
          f4 = f3[9 := ucast (drop_bit 24 val)]
      in f4[19 := crc f4 19])"

text \<open>
  \<^verbatim>\<open>writeRegister\<close> sends the frame when the characteristic pointer is set
  (lines 325-327); \<open>pChr_set\<close> stands for \<^verbatim>\<open>pChr != nullptr\<close>.
\<close>

definition writeRegister :: "bool \<Rightarrow> u8 \<Rightarrow> u32 \<Rightarrow> u8 \<Rightarrow> u8 list option" where
  "writeRegister pChr_set address val len =
     (if pChr_set then Some (writeRegister_frame address val len) else None)"

section \<open>Well-formed states and sample inputs\<close>

text \<open>
  What holds of the reassembly fields in every state the handler can reach: the buffer
  has its 320 bytes, the cursor is between 0 and 300, and while a frame is being
  accumulated the cursor is past the start sequence, which sits in bytes 0 to 3.
\<close>

definition wf_state :: "jkbms \<Rightarrow> bool" where
  "wf_state s \<longleftrightarrow>
     length (receivedBytes s) = 320 \<and> 0 \<le> frame s \<and> frame s \<le> 300
     \<and> (received_start s \<and> \<not> received_complete s \<longrightarrow>
          4 \<le> frame s \<and> take 4 (receivedBytes s) = [0x55, 0xAA, 0xEB, 0x90])"

text \<open>
  Sample inputs. \<open>fresh\<close> is a newly constructed device. \<open>head299 ty\<close> is the first 299
  bytes of a frame of type \<open>ty\<close>, \<open>pending299 ty\<close> the device after receiving them at
  time 0, and \<open>full300 ty\<close> the device when the chunk \<open>09 09 09 09\<close>, delivered next at
  time 1, has completed the frame and the \<^verbatim>\<open>switch\<close> is about to run. \<open>chunk300\<close> is
  a whole cell-data frame in a single chunk, \<open>start8\<close> a start chunk of 8 bytes,
  \<open>pending8\<close> the device after receiving \<open>start8\<close>, and \<open>restart6\<close> a second start
  chunk.
\<close>

definition fresh :: jkbms where
  "fresh = JKBMS_init 0 0 0 0 0"

definition head299 :: "u8 \<Rightarrow> u8 list" where
  "head299 ty = [0x55, 0xAA, 0xEB, 0x90, ty] @ replicate 294 0"

definition pending299 :: "u8 \<Rightarrow> jkbms" where
  "pending299 ty =
     fresh\<lparr>receivedBytes := head299 ty @ replicate 21 0, frame := 299,
            received_start := True\<rparr>"

definition full300 :: "u8 \<Rightarrow> jkbms" where
  "full300 ty =
     fresh\<lparr>lastNotifyTime := 1, receivedBytes := head299 ty @ [9] @ replicate 20 0,
            frame := 300, received_complete := True, new_data := True\<rparr>"

definition chunk300 :: "u8 list" where
  "chunk300 = [0x55, 0xAA, 0xEB, 0x90, 0x02] @ replicate 295 0"

definition start8 :: "u8 list" where
  "start8 = [0x55, 0xAA, 0xEB, 0x90, 0x02, 0x11, 0x22, 0x33]"

definition pending8 :: jkbms where
  "pending8 =
     fresh\<lparr>receivedBytes := start8 @ replicate 312 0, frame := 8, received_start := True\<rparr>"

definition restart6 :: "u8 list" where
  "restart6 = [0x55, 0xAA, 0xEB, 0x90, 0x01, 0x44]"

text \<open>A device whose buffer is zero except for the two bytes at offsets \<open>i\<close> and \<open>i + 1\<close>.\<close>

definition with_bytes :: "nat \<Rightarrow> u8 \<Rightarrow> u8 \<Rightarrow> jkbms" where
  "with_bytes i lo hi = fresh\<lparr>receivedBytes := (replicate 320 0)[i := lo, i + 1 := hi]\<rparr>"

section \<open>The decoding rules in the words of the specification\<close>

text \<open>
  Temperatures (bytes 144-145, 162-163, 164-165): if the high byte equals \<open>0xFF\<close>, the
  16-bit pair is sign-extended into a 32-bit two's-complement value before scaling by
  0.1; otherwise the 16-bit value is taken as positive and scaled by 0.1.
\<close>

definition spec_temperature :: "u8 \<Rightarrow> u8 \<Rightarrow> real" where
  "spec_temperature lo hi =
     (if hi = 0xFF
      then real_of_int (sint (scast (word_cat hi lo :: 16 word) :: u32)) * (1 / 10)
      else real_of_int (uint (word_cat hi lo :: 16 word)) * (1 / 10))"

text \<open>
  Balancing current (bytes 170-171): the high nibble of byte 171 is a sign flag. Nibble
  \<open>0x0\<close>: \<open>(byte171 << 8 | byte170) * 0.001\<close>; nibble \<open>0xF\<close>:
  \<open>((byte171 & 0x0F) << 8 | byte170) * -0.001\<close>; any other nibble: the previous value.
\<close>

definition spec_balance_current :: "u8 \<Rightarrow> u8 \<Rightarrow> real \<Rightarrow> real" where
  "spec_balance_current lo hi previous =
     (if drop_bit 4 hi = 0x0
      then real_of_int (uint (word_cat hi lo :: 16 word)) * (1 / 1000)
      else if drop_bit 4 hi = 0xF
      then real_of_int (uint (word_cat (hi AND 0x0F) lo :: 16 word)) * (- (1 / 1000))
      else previous)"

section \<open>The command frame\<close>

lemma writeRegister_frame_unfold:
  "writeRegister_frame a v l =
     [0xAA, 0x55, 0x90, 0xEB, a, l, ucast v, ucast (drop_bit 8 v), ucast (drop_bit 16 v),
      ucast (drop_bit 24 v), 0, 0, 0, 0, 0, 0, 0, 0, 0,
      0xAA + 0x55 + 0x90 + 0xEB + a + l + ucast v + ucast (drop_bit 8 v)
        + ucast (drop_bit 16 v) + ucast (drop_bit 24 v)]"
  by (simp add: writeRegister_frame_def crc_def Let_def numeral_eq_Suc upt_rec)

lemma nat_bytes:
  "(n::nat) = n mod 256 + 256 * (n div 256 mod 256) + 65536 * (n div 65536 mod 256)
     + 16777216 * (n div 16777216)"
proof -
  have d2: "n div 65536 = n div 256 div 256"
    and d3: "n div 16777216 = n div 256 div 256 div 256"
    by (simp_all add: div_mult2_eq [symmetric])
  have "n = 256 * (n div 256) + n mod 256"
    and "n div 256 = 256 * (n div 256 div 256) + n div 256 mod 256"
    and "n div 256 div 256 = 256 * (n div 256 div 256 div 256) + n div 256 div 256 mod 256"
    by simp_all
  then show ?thesis unfolding d2 d3 by linarith
qed

lemma le_bytes:
  fixes v :: u32
  shows "unat v = unat (ucast v :: u8) + 256 * unat (ucast (drop_bit 8 v) :: u8)
     + 65536 * unat (ucast (drop_bit 16 v) :: u8)
     + 16777216 * unat (ucast (drop_bit 24 v) :: u8)"
proof -
  have b: "unat v < 4294967296"
    using unsigned_less [of v, where 'a = nat] by simp
  have "unat (ucast (drop_bit k v) :: u8) = unat v div 2 ^ k mod 256" for k
    unfolding unsigned_ucast_eq unat_drop_bit_eq
    by (simp add: take_bit_eq_mod drop_bit_eq_div)
  from this [of 0] this [of 8] this [of 16] this [of 24]
  have "unat (ucast v :: u8) = unat v mod 256"
    and "unat (ucast (drop_bit 8 v) :: u8) = unat v div 256 mod 256"
    and "unat (ucast (drop_bit 16 v) :: u8) = unat v div 65536 mod 256"
    and "unat (ucast (drop_bit 24 v) :: u8) = unat v div 16777216 mod 256"
    by simp_all
  then show ?thesis using nat_bytes [of "unat v"] b by simp
qed

lemma crc_sum:
  "n \<le> length xs \<Longrightarrow> unat (crc xs n) = sum_list (map unat (take n xs)) mod 256"
proof (induction n)
  case 0
  then show ?case by (simp add: crc_def)
next
  case (Suc n)
  then show ?case
    by (simp add: crc_def take_Suc_conv_app_nth unat_word_ariths mod_simps)
qed

lemma writeRegister_frame_crc:
  "writeRegister_frame a v l ! 19 = crc (writeRegister_frame a v l) 19"
  by (simp add: writeRegister_frame_def crc_def Let_def numeral_eq_Suc upt_rec)

text \<open>
  C5, as the source has it. The frame built for address \<open>0x97\<close>, value 0 and length
  field 0 is \<open>AA 55 90 EB 97\<close>, fourteen zero bytes and the checksum \<open>0x11\<close>
  (the sum of the five header bytes is \<open>0x311\<close>). For every address, value and length
  field the frame has 20 bytes: \<open>AA 55 90 EB\<close>, the address, the length field, the value
  in little-endian order in bytes 6 to 9, zeros in bytes 10 to 18, and in byte 19 the sum
  of bytes 0 to 18 modulo 256.
\<close>

theorem writeRegister_frame_layout:
  "writeRegister_frame 0x97 0 0 =
     [0xAA, 0x55, 0x90, 0xEB, 0x97, 0, 0, 0, 0, 0, 0, 0, 0, 0, 0, 0, 0, 0, 0, 0x11]
   \<and> length (writeRegister_frame a v l) = 20
   \<and> take 4 (writeRegister_frame a v l) = [0xAA, 0x55, 0x90, 0xEB]
   \<and> writeRegister_frame a v l ! 4 = a
   \<and> writeRegister_frame a v l ! 5 = l
   \<and> unat v = unat (writeRegister_frame a v l ! 6)
               + 256 * unat (writeRegister_frame a v l ! 7)
               + 65536 * unat (writeRegister_frame a v l ! 8)
               + 16777216 * unat (writeRegister_frame a v l ! 9)
   \<and> take 9 (drop 10 (writeRegister_frame a v l)) = replicate 9 0
   \<and> unat (writeRegister_frame a v l ! 19)
       = sum_list (map unat (take 19 (writeRegister_frame a v l))) mod 256"
proof -
  have c1: "writeRegister_frame 0x97 0 0 =
     [0xAA, 0x55, 0x90, 0xEB, 0x97, 0, 0, 0, 0, 0, 0, 0, 0, 0, 0, 0, 0, 0, 0, 0x11]"
    by (simp add: writeRegister_frame_unfold)
  have c2: "length (writeRegister_frame a v l) = 20"
    by (simp add: writeRegister_frame_unfold)
  have c3: "take 4 (writeRegister_frame a v l) = [0xAA, 0x55, 0x90, 0xEB]"
    by (simp add: writeRegister_frame_unfold)
  have c4: "writeRegister_frame a v l ! 4 = a"
    by (simp add: writeRegister_frame_unfold)
  have c5: "writeRegister_frame a v l ! 5 = l"
    by (simp add: writeRegister_frame_unfold)
  have c6: "unat v = unat (writeRegister_frame a v l ! 6)
               + 256 * unat (writeRegister_frame a v l ! 7)
               + 65536 * unat (writeRegister_frame a v l ! 8)
               + 16777216 * unat (writeRegister_frame a v l ! 9)"
    using le_bytes [of v] by (simp add: writeRegister_frame_unfold)
  have c7: "take 9 (drop 10 (writeRegister_frame a v l)) = replicate 9 0"
    by (simp add: writeRegister_frame_unfold numeral_eq_Suc)
  have c8: "unat (writeRegister_frame a v l ! 19)
          = sum_list (map unat (take 19 (writeRegister_frame a v l))) mod 256"
    by (simp add: writeRegister_frame_crc crc_sum writeRegister_frame_def)
  from c1 c2 c3 c4 c5 c6 c7 c8 show ?thesis
    by (intro conjI)
qed

text \<open>
  C5 as the specification words it gives the checksum byte of that frame as \<open>0x31\<close>;
  the frame the code builds differs from it.
\<close>

theorem writeRegister_frame_0x97_not_0x31:
  "writeRegister_frame 0x97 0 0 \<noteq>
     [0xAA, 0x55, 0x90, 0xEB, 0x97, 0, 0, 0, 0, 0, 0, 0, 0, 0, 0, 0, 0, 0, 0, 0x31]"
  by (simp add: writeRegister_frame_unfold)

section \<open>The two copying loops in closed form\<close>

lemma store_chunk_full: "300 \<le> frame s \<Longrightarrow> store_chunk s bs = Some s"
  by (cases bs) simp_all

lemma put_byte_Some:
  "0 \<le> frame s \<Longrightarrow> frame s < 300 \<Longrightarrow>
   put_byte s b =
     Some (s\<lparr>receivedBytes := (receivedBytes s)[nat (frame s) := b], frame := frame s + 1\<rparr>)"
  by (simp add: put_byte_def)

lemma store_chunk_closed:
  "0 \<le> frame s \<Longrightarrow> frame s \<le> 300 \<Longrightarrow> length (receivedBytes s) = 320 \<Longrightarrow>
   store_chunk s bs =
     Some (s\<lparr>receivedBytes :=
               take (nat (frame s)) (receivedBytes s) @ take (300 - nat (frame s)) bs
                 @ drop (min (nat (frame s) + length bs) 300) (receivedBytes s),
             frame := min (frame s + int (length bs)) 300\<rparr>)"
proof (induction bs arbitrary: s)
  case Nil
  then show ?case by (simp add: min_def)
next
  case (Cons b bs)
  show ?case
  proof (cases "frame s < 300")
    case False
    with Cons.prems have "frame s = 300" by simp
    with Cons.prems show ?thesis by simp
  next
    case True
    let ?f = "nat (frame s)"
    let ?s1 = "s\<lparr>receivedBytes := (receivedBytes s)[?f := b], frame := frame s + 1\<rparr>"
    have f: "?f < 300" "?f < length (receivedBytes s)"
      using True Cons.prems by simp_all
    have ih: "store_chunk ?s1 bs =
      Some (?s1\<lparr>receivedBytes :=
               take (nat (frame ?s1)) (receivedBytes ?s1) @ take (300 - nat (frame ?s1)) bs
                 @ drop (min (nat (frame ?s1) + length bs) 300) (receivedBytes ?s1),
             frame := min (frame ?s1 + int (length bs)) 300\<rparr>)"
      by (rule Cons.IH) (use True Cons.prems in simp_all)
    have n1: "nat (frame s + 1) = Suc ?f"
      using Cons.prems by simp
    have t1: "take (Suc ?f) ((receivedBytes s)[?f := b]) = take ?f (receivedBytes s) @ [b]"
      using f by (simp add: take_Suc_conv_app_nth)
    have t2: "take (300 - ?f) (b # bs) = b # take (300 - Suc ?f) bs"
      using f by (simp add: take_Cons')
    have t3: "drop (min (Suc ?f + length bs) 300) ((receivedBytes s)[?f := b])
        = drop (min (?f + length (b # bs)) 300) (receivedBytes s)"
      using f by simp
    show ?thesis
      using True Cons.prems
      by (simp add: put_byte_Some ih n1 t1 t2 t3 del: length_Cons list.size)
         (simp add: min_def)
  qed
qed

lemma append_chunk_full: "300 \<le> frame s \<Longrightarrow> append_chunk s bs = Some (s, False)"
  by (cases bs) simp_all

lemma append_chunk_store:
  "0 \<le> frame s \<Longrightarrow> frame s \<le> 300 \<Longrightarrow>
   append_chunk s bs =
     (case store_chunk s bs of
        None \<Rightarrow> None
      | Some t \<Rightarrow>
          if frame s < 300 \<and> 300 \<le> frame s + int (length bs)
          then Some (t\<lparr>received_complete := True, received_start := False, new_data := True\<rparr>,
                     True)
          else Some (t, False))"
proof (induction bs arbitrary: s)
  case Nil
  then show ?case by simp
next
  case (Cons b bs)
  show ?case
  proof (cases "frame s < 300")
    case False
    then show ?thesis by simp
  next
    case True
    let ?s1 = "s\<lparr>receivedBytes := (receivedBytes s)[nat (frame s) := b], frame := frame s + 1\<rparr>"
    have pb: "put_byte s b = Some ?s1"
      using True Cons.prems by (simp add: put_byte_Some)
    show ?thesis
    proof (cases "frame s = 299")
      case True
      then show ?thesis
        by (simp add: pb store_chunk_full)
    next
      case False
      with \<open>frame s < 300\<close> have lt: "frame ?s1 < 300" by simp
      have ih: "append_chunk ?s1 bs =
        (case store_chunk ?s1 bs of
           None \<Rightarrow> None
         | Some t \<Rightarrow>
          if frame ?s1 < 300 \<and> 300 \<le> frame ?s1 + int (length bs)
          then Some (t\<lparr>received_complete := True, received_start := False, new_data := True\<rparr>,
                     True)
          else Some (t, False))"
        by (rule Cons.IH) (use lt Cons.prems in simp_all)
      have a: "append_chunk s (b # bs) = append_chunk ?s1 bs"
        using \<open>frame s < 300\<close> False pb by simp
      have st: "store_chunk s (b # bs) = store_chunk ?s1 bs"
        using \<open>frame s < 300\<close> pb by simp
      have e: "(frame ?s1 < 300 \<and> 300 \<le> frame ?s1 + int (length bs))
           = (frame s < 300 \<and> 300 \<le> frame s + int (length (b # bs)))"
        using lt \<open>frame s < 300\<close> by simp
      show ?thesis
        unfolding a st ih e ..
    qed
  qed
qed

lemma take_min_length: "take (min (length xs) n) xs = take n xs"
  by (simp add: min_def)

lemma reassemble_start:
  assumes "ignoreNotifyCount s \<le> 0" "4 \<le> length c" "is_start c"
    and "length (receivedBytes s) = 320"
  shows "reassemble s now c =
     Some (s\<lparr>lastNotifyTime := now, frame := min (int (length c)) 300,
             received_start := True, received_complete := False,
             receivedBytes := take (min (length c) 300) c
                                @ drop (min (length c) 300) (receivedBytes s)\<rparr>, False)"
  using assms
  by (simp add: reassemble_def store_chunk_closed take_min_length)

lemma reassemble_continue:
  assumes "ignoreNotifyCount s \<le> 0" "4 \<le> length c" "\<not> is_start c"
    and "received_start s" "\<not> received_complete s"
    and "0 \<le> frame s" "frame s < 300" "length (receivedBytes s) = 320"
  shows "reassemble s now c =
     (if frame s + int (length c) < 300
      then Some (s\<lparr>lastNotifyTime := now,
                   receivedBytes := take (nat (frame s)) (receivedBytes s) @ c
                                      @ drop (nat (frame s) + length c) (receivedBytes s),
                   frame := frame s + int (length c)\<rparr>, False)
      else Some (s\<lparr>lastNotifyTime := now,
                   receivedBytes := take (nat (frame s)) (receivedBytes s)
                                      @ take (300 - nat (frame s)) c
                                      @ drop 300 (receivedBytes s),
                   frame := 300,
                   received_complete := True, received_start := False, new_data := True\<rparr>,
                 True))"
proof -
  have "nat (frame s) + length c = 300" if "frame s + int (length c) = 300"
    using that assms(6) by linarith
  with assms show ?thesis
    by (auto simp add: reassemble_def append_chunk_store store_chunk_closed min_def)
qed

lemma reassemble_stuck:
  assumes "ignoreNotifyCount s \<le> 0" "\<not> is_start c" "300 \<le> frame s"
  shows "reassemble s now c = Some (s\<lparr>lastNotifyTime := now\<rparr>, False)"
  using assms
  by (simp add: reassemble_def append_chunk_full Let_def)

lemma take4_nth: "4 \<le> length c \<Longrightarrow> take 4 c = [c ! 0, c ! 1, c ! 2, c ! 3]"
  by (auto simp add: numeral_eq_Suc Suc_le_length_iff)

lemma is_start_take4:
  "4 \<le> length c \<Longrightarrow> is_start c \<longleftrightarrow> take 4 c = [0x55, 0xAA, 0xEB, 0x90]"
  by (simp add: take4_nth is_start_def)

lemma dispatch_keeps:
  "receivedBytes (dispatch t) = receivedBytes t"
  "frame (dispatch t) = frame t"
  "received_start (dispatch t) = received_start t"
  "received_complete (dispatch t) = received_complete t"
  by (simp_all add: dispatch_def parseData_def bms_settings_def parseDeviceInfo_def Let_def)

lemma wf_state_dispatch: "wf_state (dispatch t) = wf_state t"
  by (simp add: wf_state_def dispatch_keeps)

lemma handleNotification_throttled:
  "0 < ignoreNotifyCount s \<Longrightarrow>
   handleNotification s now c =
     Some (s\<lparr>lastNotifyTime := now, ignoreNotifyCount := ignoreNotifyCount s - 1\<rparr>)"
  by (simp add: handleNotification_def reassemble_def)

lemma reassemble_short:
  "ignoreNotifyCount s \<le> 0 \<Longrightarrow> length c < 4 \<Longrightarrow>
   reassemble s now c = Some (s\<lparr>lastNotifyTime := now\<rparr>, False)"
  by (simp add: reassemble_def)

lemma reassemble_idle:
  "ignoreNotifyCount s \<le> 0 \<Longrightarrow> \<not> is_start c \<Longrightarrow> \<not> (received_start s \<and> \<not> received_complete s) \<Longrightarrow>
   reassemble s now c = Some (s\<lparr>lastNotifyTime := now\<rparr>, False)"
  by (auto simp add: reassemble_def Let_def)

lemma reassemble_wf:
  assumes "wf_state s"
  shows "case reassemble s now c of
           None \<Rightarrow> False
         | Some (t, fl) \<Rightarrow>
             wf_state t \<and> drop 300 (receivedBytes t) = drop 300 (receivedBytes s)"
proof -
  from assms have len: "length (receivedBytes s) = 320" and f0: "0 \<le> frame s"
    and f300: "frame s \<le> 300" by (simp_all add: wf_state_def)
  consider (thr) "0 < ignoreNotifyCount s"
    | (short) "ignoreNotifyCount s \<le> 0" "length c < 4"
    | (start) "ignoreNotifyCount s \<le> 0" "4 \<le> length c" "is_start c"
    | (stuck) "ignoreNotifyCount s \<le> 0" "4 \<le> length c" "\<not> is_start c" "frame s = 300"
    | (cont) "ignoreNotifyCount s \<le> 0" "4 \<le> length c" "\<not> is_start c"
        "received_start s" "\<not> received_complete s" "frame s < 300"
    | (idle) "ignoreNotifyCount s \<le> 0" "\<not> is_start c" "\<not> (received_start s \<and> \<not> received_complete s)"
    using f300 by fastforce
  then show ?thesis
  proof cases
    case thr
    then show ?thesis using assms by (simp add: reassemble_def wf_state_def)
  next
    case short
    then show ?thesis using assms by (simp add: reassemble_short wf_state_def)
  next
    case start
    have "take 4 c = [0x55, 0xAA, 0xEB, 0x90]"
      using start by (simp add: is_start_take4)
    then show ?thesis
      using start len by (simp add: reassemble_start wf_state_def min_def)
  next
    case stuck
    then show ?thesis using assms by (simp add: reassemble_stuck wf_state_def)
  next
    case cont
    from cont assms have f4: "4 \<le> frame s"
      and hd: "take 4 (receivedBytes s) = [0x55, 0xAA, 0xEB, 0x90]"
      by (simp_all add: wf_state_def)
    show ?thesis
      using cont len f0 f4 hd
      by (simp add: reassemble_continue wf_state_def)
  next
    case idle
    then show ?thesis using assms by (simp add: reassemble_idle wf_state_def)
  qed
qed

lemma handleNotification_wf:
  assumes "wf_state s"
  shows "\<exists>s'. handleNotification s now c = Some s' \<and> wf_state s'
           \<and> drop 300 (receivedBytes s') = drop 300 (receivedBytes s)"
proof -
  from reassemble_wf [OF assms, of now c] show ?thesis
    by (auto simp add: handleNotification_def wf_state_dispatch dispatch_keeps
          split: option.splits)
qed

lemma wf_state_init: "wf_state (JKBMS_init up0 sec0 mi0 hr0 days0)"
  by (simp add: wf_state_def JKBMS_init_def)

lemma reassemble_True:
  assumes "wf_state s" "reassemble s now c = Some (t, True)"
  shows "frame t = 300 \<and> take 4 (receivedBytes t) = [0x55, 0xAA, 0xEB, 0x90]
         \<and> ignoreNotifyCount s \<le> 0 \<and> 4 \<le> length c \<and> \<not> is_start c
         \<and> received_start s \<and> \<not> received_complete s \<and> frame s < 300
         \<and> 300 \<le> frame s + int (length c)
         \<and> t = s\<lparr>lastNotifyTime := now,
                 receivedBytes := take (nat (frame s)) (receivedBytes s)
                                      @ take (300 - nat (frame s)) c
                                      @ drop 300 (receivedBytes s),
                 frame := 300,
                 received_complete := True, received_start := False, new_data := True\<rparr>"
proof -
  from assms(1) have len: "length (receivedBytes s) = 320" and f0: "0 \<le> frame s"
    and f300: "frame s \<le> 300" by (simp_all add: wf_state_def)
  consider (thr) "0 < ignoreNotifyCount s"
    | (short) "ignoreNotifyCount s \<le> 0" "length c < 4"
    | (start) "ignoreNotifyCount s \<le> 0" "4 \<le> length c" "is_start c"
    | (stuck) "ignoreNotifyCount s \<le> 0" "4 \<le> length c" "\<not> is_start c" "frame s = 300"
    | (cont) "ignoreNotifyCount s \<le> 0" "4 \<le> length c" "\<not> is_start c"
        "received_start s" "\<not> received_complete s" "frame s < 300"
    | (idle) "ignoreNotifyCount s \<le> 0" "\<not> is_start c" "\<not> (received_start s \<and> \<not> received_complete s)"
    using f300 by fastforce
  then show ?thesis
  proof cases
    case thr
    then show ?thesis using assms by (simp add: reassemble_def)
  next
    case short
    then show ?thesis using assms by (simp add: reassemble_short)
  next
    case start
    then show ?thesis using assms len by (simp add: reassemble_start)
  next
    case stuck
    then show ?thesis using assms by (simp add: reassemble_stuck)
  next
    case cont
    from cont assms have f4: "4 \<le> frame s"
      and hd: "take 4 (receivedBytes s) = [0x55, 0xAA, 0xEB, 0x90]"
      by (simp_all add: wf_state_def)
    have r: "reassemble s now c =
     (if frame s + int (length c) < 300
      then Some (s\<lparr>lastNotifyTime := now,
                   receivedBytes := take (nat (frame s)) (receivedBytes s) @ c
                                      @ drop (nat (frame s) + length c) (receivedBytes s),
                   frame := frame s + int (length c)\<rparr>, False)
      else Some (s\<lparr>lastNotifyTime := now,
                   receivedBytes := take (nat (frame s)) (receivedBytes s)
                                      @ take (300 - nat (frame s)) c
                                      @ drop 300 (receivedBytes s),
                   frame := 300,
                   received_complete := True, received_start := False, new_data := True\<rparr>,
                 True))"
      using cont f0 len by (intro reassemble_continue)
    show ?thesis
    proof (cases "frame s + int (length c) < 300")
      case True
      with r assms(2) show ?thesis by simp
    next
      case False
      with r assms(2) have t: "t = s\<lparr>lastNotifyTime := now,
                   receivedBytes := take (nat (frame s)) (receivedBytes s)
                                      @ take (300 - nat (frame s)) c
                                      @ drop 300 (receivedBytes s),
                   frame := 300,
                   received_complete := True, received_start := False, new_data := True\<rparr>"
        by simp
      have "frame t = 300" by (simp add: t)
      moreover have "take 4 (receivedBytes t) = [0x55, 0xAA, 0xEB, 0x90]"
        using f4 hd len by (simp add: t)
      ultimately show ?thesis using cont False t by simp
    qed
  next
    case idle
    then show ?thesis using assms by (simp add: reassemble_idle)
  qed
qed

lemma deliver_wf:
  "wf_state s \<Longrightarrow>
   \<exists>s'. deliver s cs = Some s' \<and> wf_state s'
        \<and> drop 300 (receivedBytes s') = drop 300 (receivedBytes s)"
proof (induction cs arbitrary: s)
  case Nil
  then show ?case by simp
next
  case (Cons a cs)
  obtain now c where a: "a = (now, c)" by (cases a)
  from handleNotification_wf [OF Cons.prems, of now c] obtain s1 where
    s1: "handleNotification s now c = Some s1" "wf_state s1"
      "drop 300 (receivedBytes s1) = drop 300 (receivedBytes s)" by blast
  from Cons.IH [OF s1(2)] s1 show ?case by (auto simp add: a)
qed

section \<open>The sample deliveries\<close>

lemma deliver_append:
  "deliver s (xs @ ys) = (case deliver s xs of None \<Rightarrow> None | Some t \<Rightarrow> deliver t ys)"
  by (induction xs arbitrary: s) (auto split: option.splits)

lemma deliver_single: "deliver s [(now, c)] = handleNotification s now c"
  by (simp split: option.splits)

lemma is_start_head299: "is_start (head299 ty)"
  by (simp add: is_start_def head299_def)

lemma length_head299: "length (head299 ty) = 299"
  by (simp add: head299_def)

lemma deliver_head299: "deliver fresh [(0, head299 ty)] = Some (pending299 ty)"
  by (simp add: handleNotification_def reassemble_start is_start_head299 length_head299
        fresh_def JKBMS_init_def pending299_def)

lemma reassemble_pending299:
  "reassemble (pending299 ty) 1 [9, 9, 9, 9] = Some (full300 ty, True)"
  by (simp add: reassemble_continue is_start_def pending299_def full300_def
        fresh_def JKBMS_init_def length_head299)

lemma full300_type: "receivedBytes (full300 ty) ! 4 = ty"
  by (simp add: full300_def head299_def)

lemma handleNotification_pending299:
  "handleNotification (pending299 ty) 1 [9, 9, 9, 9] = Some (dispatch (full300 ty))"
  by (simp add: handleNotification_def reassemble_pending299)

lemma full300_facts:
  "length (receivedBytes (full300 ty)) = 320" "\<not> received_start (full300 ty)"
  "received_complete (full300 ty)" "new_data (full300 ty)" "frame (full300 ty) = 300"
  "ignoreNotifyCount (full300 ty) = 0"
  by (simp_all add: full300_def fresh_def JKBMS_init_def length_head299)

lemma deliver_two_chunks:
  "deliver fresh [(0, head299 ty), (1, [9, 9, 9, 9])] = Some (dispatch (full300 ty))"
proof -
  have h: "handleNotification fresh 0 (head299 ty) = Some (pending299 ty)"
    using deliver_head299 [of ty] by (simp only: deliver_single)
  show ?thesis
    by (simp add: h handleNotification_pending299)
qed

lemma pending8_facts:
  "received_start pending8" "\<not> received_complete pending8" "0 \<le> frame pending8"
  "frame pending8 < 300" "ignoreNotifyCount pending8 = 0"
  "length (receivedBytes pending8) = 320" "frame pending8 = 8"
  by (simp_all add: pending8_def fresh_def JKBMS_init_def start8_def)

lemma pending299_facts:
  "received_start (pending299 ty)" "\<not> received_complete (pending299 ty)"
  "0 \<le> frame (pending299 ty)" "frame (pending299 ty) < 300"
  "ignoreNotifyCount (pending299 ty) = 0" "length (receivedBytes (pending299 ty)) = 320"
  by (simp_all add: pending299_def fresh_def JKBMS_init_def length_head299)

section \<open>A start chunk\<close>

lemma handleNotification_start:
  assumes "ignoreNotifyCount s \<le> 0" "4 \<le> length c" "is_start c"
    and "length (receivedBytes s) = 320"
  shows "handleNotification s now c =
     Some (s\<lparr>lastNotifyTime := now, frame := min (int (length c)) 300,
             received_start := True, received_complete := False,
             receivedBytes := take (min (length c) 300) c
                                @ drop (min (length c) 300) (receivedBytes s)\<rparr>)"
  using assms by (simp add: handleNotification_def reassemble_start)

lemma handleNotification_stuck:
  assumes "ignoreNotifyCount s \<le> 0" "\<not> is_start c" "300 \<le> frame s"
  shows "handleNotification s now c = Some (s\<lparr>lastNotifyTime := now\<rparr>)"
  using assms by (simp add: handleNotification_def reassemble_stuck)

lemma handleNotification_continue:
  assumes "ignoreNotifyCount s \<le> 0" "4 \<le> length c" "\<not> is_start c"
    and "received_start s" "\<not> received_complete s"
    and "0 \<le> frame s" "frame s < 300" "length (receivedBytes s) = 320"
  shows "handleNotification s now c =
     Some (if frame s + int (length c) < 300
           then s\<lparr>lastNotifyTime := now,
                   receivedBytes := take (nat (frame s)) (receivedBytes s) @ c
                                      @ drop (nat (frame s) + length c) (receivedBytes s),
                   frame := frame s + int (length c)\<rparr>
           else dispatch
                  (s\<lparr>lastNotifyTime := now,
                     receivedBytes := take (nat (frame s)) (receivedBytes s)
                                        @ take (300 - nat (frame s)) c
                                        @ drop 300 (receivedBytes s),
                     frame := 300,
                     received_complete := True, received_start := False,
                     new_data := True\<rparr>))"
  by (simp add: handleNotification_def reassemble_continue [OF assms])

lemma handleNotification_short:
  "ignoreNotifyCount s \<le> 0 \<Longrightarrow> length c < 4 \<Longrightarrow>
   handleNotification s now c = Some (s\<lparr>lastNotifyTime := now\<rparr>)"
  by (simp add: handleNotification_def reassemble_short)

lemma handleNotification_idle:
  "ignoreNotifyCount s \<le> 0 \<Longrightarrow> \<not> is_start c \<Longrightarrow>
   \<not> (received_start s \<and> \<not> received_complete s) \<Longrightarrow>
   handleNotification s now c = Some (s\<lparr>lastNotifyTime := now\<rparr>)"
  by (simp add: handleNotification_def reassemble_idle)

lemma is_start_chunk300: "is_start chunk300"
  by (simp add: is_start_def chunk300_def)

lemma length_chunk300: "length chunk300 = 300"
  by (simp add: chunk300_def)

text \<open>
  C1. A chunk that begins with the start sequence resets the cursor, is copied (at most
  300 bytes of it) to the beginning of the buffer and leaves the reassembler
  accumulating: that is \<open>handleNotification_start\<close>, for every state. What the claim adds
  fails: when the single chunk brings the cursor to 300, the frame is neither marked
  complete nor dispatched. On a new device, the 300-byte cell-data frame \<open>chunk300\<close>
  leaves \<^verbatim>\<open>received_complete\<close> and \<^verbatim>\<open>new_data\<close> false, the throttle at 0 and every
  decoded field untouched; the continuation chunk that follows is dropped, since the
  loop of the continuation branch does not run with the cursor at 300.
\<close>

theorem single_chunk_frame_not_dispatched:
  "handleNotification fresh 1 chunk300 =
     Some (fresh\<lparr>lastNotifyTime := 1, receivedBytes := chunk300 @ replicate 20 0,
                  frame := 300, received_start := True\<rparr>)
   \<and> deliver fresh [(1, chunk300), (2, [9, 9, 9, 9])] =
     Some (fresh\<lparr>lastNotifyTime := 2, receivedBytes := chunk300 @ replicate 20 0,
                  frame := 300, received_start := True\<rparr>)"
proof -
  have a: "handleNotification fresh 1 chunk300 =
     Some (fresh\<lparr>lastNotifyTime := 1, receivedBytes := chunk300 @ replicate 20 0,
                  frame := 300, received_start := True\<rparr>)"
    by (simp add: handleNotification_start is_start_chunk300 length_chunk300
          fresh_def JKBMS_init_def)
  have b: "handleNotification (fresh\<lparr>lastNotifyTime := 1, receivedBytes := chunk300 @ replicate 20 0,
                  frame := 300, received_start := True\<rparr>) 2 [9, 9, 9, 9]
     = Some (fresh\<lparr>lastNotifyTime := 2, receivedBytes := chunk300 @ replicate 20 0,
                  frame := 300, received_start := True\<rparr>)"
    by (simp add: handleNotification_stuck is_start_def fresh_def JKBMS_init_def)
  from a b show ?thesis by simp
qed

section \<open>A start sequence while accumulating\<close>

lemma is_start_restart6: "is_start restart6"
  by (simp add: is_start_def restart6_def)

text \<open>
  C2 as the specification words it fails. With 8 bytes accumulated, the chunk
  \<open>restart6\<close>, which begins with the start sequence, is not appended at position 8: the
  cursor goes to 6 and the chunk lies at the beginning of the buffer.
\<close>

theorem restart_in_accumulating_example:
  "handleNotification pending8 1 restart6 =
     Some (pending8\<lparr>lastNotifyTime := 1,
                     receivedBytes := restart6 @ drop 6 (receivedBytes pending8),
                     frame := 6\<rparr>)
   \<and> handleNotification pending8 1 restart6 \<noteq>
     Some (pending8\<lparr>lastNotifyTime := 1,
                     receivedBytes := take 8 (receivedBytes pending8) @ restart6
                                        @ drop 14 (receivedBytes pending8),
                     frame := 14\<rparr>)"
proof -
  have a: "handleNotification pending8 1 restart6 =
     Some (pending8\<lparr>lastNotifyTime := 1,
                     receivedBytes := restart6 @ drop 6 (receivedBytes pending8),
                     frame := 6\<rparr>)"
  proof -
    have "ignoreNotifyCount pending8 \<le> 0" "length (receivedBytes pending8) = 320"
      by (simp_all add: pending8_def fresh_def JKBMS_init_def start8_def)
    moreover have "4 \<le> length restart6" "length restart6 = 6"
      by (simp_all add: restart6_def)
    ultimately show ?thesis
      using handleNotification_start [of pending8 restart6 1] is_start_restart6
      by (simp add: pending8_def fresh_def JKBMS_init_def)
  qed
  have "frame (pending8\<lparr>lastNotifyTime := 1,
                     receivedBytes := restart6 @ drop 6 (receivedBytes pending8),
                     frame := 6\<rparr>) \<noteq> frame (pending8\<lparr>lastNotifyTime := 1,
                     receivedBytes := take 8 (receivedBytes pending8) @ restart6
                                        @ drop 14 (receivedBytes pending8),
                     frame := 14\<rparr>)" by simp
  then have "pending8\<lparr>lastNotifyTime := 1,
                     receivedBytes := restart6 @ drop 6 (receivedBytes pending8),
                     frame := 6\<rparr> \<noteq> pending8\<lparr>lastNotifyTime := 1,
                     receivedBytes := take 8 (receivedBytes pending8) @ restart6
                                        @ drop 14 (receivedBytes pending8),
                     frame := 14\<rparr>" by metis
  with a show ?thesis by simp
qed

text \<open>
  C2, as the source has it. While a frame is being accumulated (cursor from 0 to 299,
  throttle 0), a chunk of at least 4 and fewer than 300 bytes that begins with the start
  sequence discards the frame in progress and starts a new one: the chunk is stored from
  position 0, the cursor is its length, and the reassembler is accumulating still. A
  chunk of at least 4 bytes that does not begin with the start sequence is appended at
  the cursor whatever it contains: the whole chunk when it ends below position 300, and
  otherwise its bytes up to position 299, which complete the frame and pass it to the
  \<^verbatim>\<open>switch\<close> in the same call.
\<close>

theorem start_chunk_restarts_frame:
  assumes "received_start s" "\<not> received_complete s" "0 \<le> frame s" "frame s < 300"
    and "ignoreNotifyCount s = 0" "length (receivedBytes s) = 320" "4 \<le> length pData"
  shows "(is_start pData \<and> length pData < 300 \<longrightarrow>
           (\<exists>s'. handleNotification s now pData = Some s'
              \<and> s' = s\<lparr>lastNotifyTime := now,
                        receivedBytes := pData @ drop (length pData) (receivedBytes s),
                        frame := int (length pData)\<rparr>
              \<and> received_start s' \<and> \<not> received_complete s'
              \<and> 0 \<le> frame s' \<and> frame s' < 300))
       \<and> (\<not> is_start pData \<longrightarrow>
           handleNotification s now pData =
             Some (if frame s + int (length pData) < 300
                   then s\<lparr>lastNotifyTime := now,
                          receivedBytes := take (nat (frame s)) (receivedBytes s) @ pData
                              @ drop (nat (frame s) + length pData) (receivedBytes s),
                          frame := frame s + int (length pData)\<rparr>
                   else dispatch
                          (s\<lparr>lastNotifyTime := now,
                             receivedBytes := take (nat (frame s)) (receivedBytes s)
                                 @ take (300 - nat (frame s)) pData
                                 @ drop 300 (receivedBytes s),
                             frame := 300,
                             received_complete := True, received_start := False,
                             new_data := True\<rparr>)))"
proof (intro conjI impI)
  assume a: "is_start pData \<and> length pData < 300"
  have ign: "ignoreNotifyCount s \<le> 0" using assms(5) by simp
  from a have m: "min (length pData) 300 = length pData"
    "min (int (length pData)) 300 = int (length pData)" by simp_all
  from handleNotification_start [OF ign assms(7) _ assms(6), of now] a
  have "handleNotification s now pData =
          Some (s\<lparr>lastNotifyTime := now,
                  receivedBytes := pData @ drop (length pData) (receivedBytes s),
                  frame := int (length pData)\<rparr>)"
    using assms(1,2) by (simp add: m)
  then show "\<exists>s'. handleNotification s now pData = Some s'
              \<and> s' = s\<lparr>lastNotifyTime := now,
                        receivedBytes := pData @ drop (length pData) (receivedBytes s),
                        frame := int (length pData)\<rparr>
              \<and> received_start s' \<and> \<not> received_complete s'
              \<and> 0 \<le> frame s' \<and> frame s' < 300"
    using assms(1,2) a by simp
next
  assume n: "\<not> is_start pData"
  have ign: "ignoreNotifyCount s \<le> 0" using assms(5) by simp
  show "handleNotification s now pData =
             Some (if frame s + int (length pData) < 300
                   then s\<lparr>lastNotifyTime := now,
                          receivedBytes := take (nat (frame s)) (receivedBytes s) @ pData
                              @ drop (nat (frame s) + length pData) (receivedBytes s),
                          frame := frame s + int (length pData)\<rparr>
                   else dispatch
                          (s\<lparr>lastNotifyTime := now,
                             receivedBytes := take (nat (frame s)) (receivedBytes s)
                                 @ take (300 - nat (frame s)) pData
                                 @ drop 300 (receivedBytes s),
                             frame := 300,
                             received_complete := True, received_start := False,
                             new_data := True\<rparr>))"
    by (rule handleNotification_continue [OF ign assms(7) n assms(1,2,3,4,6)])
qed

theorem start_chunk_restarts_frame_witness:
  "received_start pending8 \<and> \<not> received_complete pending8 \<and> 0 \<le> frame pending8
   \<and> frame pending8 < 300 \<and> ignoreNotifyCount pending8 = 0
   \<and> length (receivedBytes pending8) = 320
   \<and> 4 \<le> length restart6 \<and> is_start restart6 \<and> length restart6 < 300
   \<and> handleNotification pending8 1 restart6 =
         Some (pending8\<lparr>lastNotifyTime := 1,
                 receivedBytes := restart6 @ drop 6 (receivedBytes pending8),
                 frame := 6\<rparr>)
   \<and> \<not> is_start [9, 9, 9, 9 :: u8]
   \<and> handleNotification pending8 1 [9, 9, 9, 9] =
         Some (pending8\<lparr>lastNotifyTime := 1,
                 receivedBytes := start8 @ [9, 9, 9, 9] @ replicate 308 0,
                 frame := 12\<rparr>)
   \<and> handleNotification (pending299 0x07) 1 [9, 9, 9, 9] = Some (full300 0x07)"
proof -
  have l: "4 \<le> length restart6" "length restart6 < 300" "length restart6 = 6"
    by (simp_all add: restart6_def)
  have n: "\<not> is_start [9, 9, 9, 9 :: u8]" "4 \<le> length [9, 9, 9, 9 :: u8]"
    by (simp_all add: is_start_def)
  note t8 = start_chunk_restarts_frame [OF pending8_facts(1-6)]
  from t8 [OF l(1), of 1] is_start_restart6 l
  have a: "handleNotification pending8 1 restart6 =
         Some (pending8\<lparr>lastNotifyTime := 1,
                 receivedBytes := restart6 @ drop 6 (receivedBytes pending8),
                 frame := 6\<rparr>)"
    by simp
  from t8 [OF n(2), of 1] n(1)
  have "handleNotification pending8 1 [9, 9, 9, 9] =
          Some (pending8\<lparr>lastNotifyTime := 1,
                  receivedBytes := take 8 (receivedBytes pending8) @ [9, 9, 9, 9]
                      @ drop 12 (receivedBytes pending8),
                  frame := 12\<rparr>)"
    by (simp add: pending8_facts(7))
  then have b: "handleNotification pending8 1 [9, 9, 9, 9] =
         Some (pending8\<lparr>lastNotifyTime := 1,
                 receivedBytes := start8 @ [9, 9, 9, 9] @ replicate 308 0,
                 frame := 12\<rparr>)"
    by (simp add: pending8_def start8_def)
  from start_chunk_restarts_frame [OF pending299_facts n(2), of 7 1] n(1)
  have "handleNotification (pending299 0x07) 1 [9, 9, 9, 9] =
          Some (dispatch
            ((pending299 0x07)\<lparr>lastNotifyTime := 1,
               receivedBytes := take (nat (frame (pending299 0x07)))
                                  (receivedBytes (pending299 0x07))
                   @ take (300 - nat (frame (pending299 0x07))) [9, 9, 9, 9]
                   @ drop 300 (receivedBytes (pending299 0x07)),
               frame := 300,
               received_complete := True, received_start := False, new_data := True\<rparr>))"
    by (simp add: pending299_def)
  moreover have "handleNotification (pending299 0x07) 1 [9, 9, 9, 9]
                   = Some (dispatch (full300 0x07))"
    by (simp add: handleNotification_def reassemble_pending299)
  moreover have "dispatch (full300 0x07) = full300 0x07"
    by (simp add: dispatch_def full300_type)
  ultimately have c: "handleNotification (pending299 0x07) 1 [9, 9, 9, 9] = Some (full300 0x07)"
    by simp
  from pending8_facts(1-6) l(1,2) is_start_restart6 a n(1) b c show ?thesis
    by (intro conjI)
qed

section \<open>The throttle\<close>

lemma handleNotification_lastNotifyTime:
  "handleNotification (s\<lparr>lastNotifyTime := x\<rparr>) now c = handleNotification s now c"
  by (simp add: handleNotification_def reassemble_def)

lemma deliver_throttled:
  "int (length cs) \<le> ignoreNotifyCount s \<Longrightarrow>
   deliver s cs =
     Some (s\<lparr>lastNotifyTime := last (lastNotifyTime s # map fst cs),
             ignoreNotifyCount := ignoreNotifyCount s - int (length cs)\<rparr>)"
proof (induction cs arbitrary: s)
  case Nil
  then show ?case by simp
next
  case (Cons a cs)
  obtain now c where a: "a = (now, c)" by (cases a)
  let ?s1 = "s\<lparr>lastNotifyTime := now, ignoreNotifyCount := ignoreNotifyCount s - 1\<rparr>"
  from Cons.prems have pos: "0 < ignoreNotifyCount s" by simp
  have "int (length cs) \<le> ignoreNotifyCount ?s1" using Cons.prems by simp
  from Cons.IH [OF this] show ?case
    by (simp add: a handleNotification_throttled [OF pos])
qed

lemma parseData_keeps:
  "receivedBytes (parseData s) = receivedBytes s"
  "frame (parseData s) = frame s"
  "received_start (parseData s) = received_start s"
  "received_complete (parseData s) = received_complete s"
  "lastNotifyTime (parseData s) = lastNotifyTime s"
  "ignoreNotifyCount (parseData s) = 10"
  "new_data (parseData s) = False"
  by (simp_all add: parseData_def Let_def)

text \<open>
  C3. The cell-data decoder leaves the throttle counter at 10. Of the deliveries that
  follow, whatever their content and length, the first ten only count the throttle down
  and record the time: after \<open>k \<le> 10\<close> of them the state is the decoder's result with
  the counter at \<open>10 - k\<close>, so buffer, cursor and flags are as they were. The eleventh
  delivery is handled as on that state had the throttle not been armed, and the state
  machine does its work on it, with the counter staying at 0: a chunk shorter than 4
  bytes is dropped; a chunk that begins with the start sequence starts a frame; a chunk
  that does not is appended to the frame in progress, completing and dispatching it if
  it reaches position 300, and is dropped when no frame is in progress.
\<close>

theorem throttle_drops_ten:
  assumes "length cs = 10"
  shows "ignoreNotifyCount (parseData s0) = 10
    \<and> (\<forall>k\<le>10. deliver (parseData s0) (take k cs) =
           Some ((parseData s0)\<lparr>lastNotifyTime := last (lastNotifyTime s0 # map fst (take k cs)),
                                ignoreNotifyCount := 10 - int k\<rparr>))
    \<and> deliver (parseData s0) (cs @ [(now, pData)]) =
         handleNotification ((parseData s0)\<lparr>ignoreNotifyCount := 0\<rparr>) now pData
    \<and> (length pData < 4 \<longrightarrow>
         deliver (parseData s0) (cs @ [(now, pData)]) =
           Some ((parseData s0)\<lparr>ignoreNotifyCount := 0, lastNotifyTime := now\<rparr>))
    \<and> (4 \<le> length pData \<and> is_start pData \<and> length (receivedBytes s0) = 320 \<longrightarrow>
         deliver (parseData s0) (cs @ [(now, pData)]) =
           Some ((parseData s0)\<lparr>ignoreNotifyCount := 0, lastNotifyTime := now,
                   frame := min (int (length pData)) 300,
                   received_start := True, received_complete := False,
                   receivedBytes := take (min (length pData) 300) pData
                                      @ drop (min (length pData) 300) (receivedBytes s0)\<rparr>))
    \<and> (4 \<le> length pData \<and> \<not> is_start pData
         \<and> received_start s0 \<and> \<not> received_complete s0
         \<and> 0 \<le> frame s0 \<and> frame s0 < 300 \<and> length (receivedBytes s0) = 320 \<longrightarrow>
         deliver (parseData s0) (cs @ [(now, pData)]) =
           Some (if frame s0 + int (length pData) < 300
                 then (parseData s0)\<lparr>ignoreNotifyCount := 0, lastNotifyTime := now,
                        receivedBytes := take (nat (frame s0)) (receivedBytes s0) @ pData
                            @ drop (nat (frame s0) + length pData) (receivedBytes s0),
                        frame := frame s0 + int (length pData)\<rparr>
                 else dispatch
                        ((parseData s0)\<lparr>ignoreNotifyCount := 0, lastNotifyTime := now,
                           receivedBytes := take (nat (frame s0)) (receivedBytes s0)
                               @ take (300 - nat (frame s0)) pData
                               @ drop 300 (receivedBytes s0),
                           frame := 300,
                           received_complete := True, received_start := False,
                           new_data := True\<rparr>)))
    \<and> (\<not> is_start pData \<and> \<not> (received_start s0 \<and> \<not> received_complete s0) \<longrightarrow>
         deliver (parseData s0) (cs @ [(now, pData)]) =
           Some ((parseData s0)\<lparr>ignoreNotifyCount := 0, lastNotifyTime := now\<rparr>))"
proof -
  have ten: "ignoreNotifyCount (parseData s0) = 10"
    and lnt: "lastNotifyTime (parseData s0) = lastNotifyTime s0"
    by (simp_all add: parseData_def Let_def)
  have pre: "deliver (parseData s0) (take k cs) =
           Some ((parseData s0)\<lparr>lastNotifyTime := last (lastNotifyTime s0 # map fst (take k cs)),
                                ignoreNotifyCount := 10 - int k\<rparr>)" if "k \<le> 10" for k
  proof -
    have "int (length (take k cs)) \<le> ignoreNotifyCount (parseData s0)"
      using that assms ten by simp
    from deliver_throttled [OF this] that assms show ?thesis
      by (simp add: ten lnt min_def)
  qed
  define L where "L = last (lastNotifyTime s0 # map fst cs)"
  define P where "P = (parseData s0)\<lparr>ignoreNotifyCount := 0\<rparr>"
  from pre [of 10] assms
  have d: "deliver (parseData s0) cs =
           Some ((parseData s0)\<lparr>lastNotifyTime := L, ignoreNotifyCount := 0\<rparr>)"
    by (simp add: L_def)
  have sw: "(parseData s0)\<lparr>lastNotifyTime := L, ignoreNotifyCount := 0\<rparr>
              = (parseData s0)\<lparr>ignoreNotifyCount := 0, lastNotifyTime := L\<rparr>"
    by simp
  have "deliver (parseData s0) (cs @ [(now, pData)]) =
         handleNotification ((parseData s0)\<lparr>lastNotifyTime := L, ignoreNotifyCount := 0\<rparr>)
           now pData"
    by (simp only: deliver_append d option.case deliver_single)
  then have e: "deliver (parseData s0) (cs @ [(now, pData)]) = handleNotification P now pData"
    by (simp only: sw handleNotification_lastNotifyTime P_def)
  have P: "ignoreNotifyCount P \<le> 0" "receivedBytes P = receivedBytes s0" "frame P = frame s0"
    "received_start P = received_start s0" "received_complete P = received_complete s0"
    by (simp_all add: P_def parseData_keeps)
  have c1: "deliver (parseData s0) (cs @ [(now, pData)]) =
           Some ((parseData s0)\<lparr>ignoreNotifyCount := 0, lastNotifyTime := now\<rparr>)"
    if "length pData < 4"
    unfolding e using handleNotification_short [OF P(1) that, of now]
    by (simp add: P_def)
  have c2: "deliver (parseData s0) (cs @ [(now, pData)]) =
           Some ((parseData s0)\<lparr>ignoreNotifyCount := 0, lastNotifyTime := now,
                   frame := min (int (length pData)) 300,
                   received_start := True, received_complete := False,
                   receivedBytes := take (min (length pData) 300) pData
                                      @ drop (min (length pData) 300) (receivedBytes s0)\<rparr>)"
    if "4 \<le> length pData \<and> is_start pData \<and> length (receivedBytes s0) = 320"
  proof -
    from that have "length (receivedBytes P) = 320" by (simp add: P)
    from handleNotification_start [OF P(1) _ _ this, of pData now] that show ?thesis
      unfolding e by (simp add: P) (simp add: P_def)
  qed
  have c3: "deliver (parseData s0) (cs @ [(now, pData)]) =
           Some (if frame s0 + int (length pData) < 300
                 then (parseData s0)\<lparr>ignoreNotifyCount := 0, lastNotifyTime := now,
                        receivedBytes := take (nat (frame s0)) (receivedBytes s0) @ pData
                            @ drop (nat (frame s0) + length pData) (receivedBytes s0),
                        frame := frame s0 + int (length pData)\<rparr>
                 else dispatch
                        ((parseData s0)\<lparr>ignoreNotifyCount := 0, lastNotifyTime := now,
                           receivedBytes := take (nat (frame s0)) (receivedBytes s0)
                               @ take (300 - nat (frame s0)) pData
                               @ drop 300 (receivedBytes s0),
                           frame := 300,
                           received_complete := True, received_start := False,
                           new_data := True\<rparr>))"
    if h: "4 \<le> length pData \<and> \<not> is_start pData
         \<and> received_start s0 \<and> \<not> received_complete s0
         \<and> 0 \<le> frame s0 \<and> frame s0 < 300 \<and> length (receivedBytes s0) = 320"
  proof -
    from h have q: "4 \<le> length pData" "\<not> is_start pData" "received_start P"
      "\<not> received_complete P" "0 \<le> frame P" "frame P < 300" "length (receivedBytes P) = 320"
      by (simp_all add: P)
    from handleNotification_continue [OF P(1) q, of now] show ?thesis
      unfolding e by (simp only: P(2-5)) (simp only: P_def)
  qed
  have c4: "deliver (parseData s0) (cs @ [(now, pData)]) =
           Some ((parseData s0)\<lparr>ignoreNotifyCount := 0, lastNotifyTime := now\<rparr>)"
    if h: "\<not> is_start pData \<and> \<not> (received_start s0 \<and> \<not> received_complete s0)"
  proof -
    from h have "\<not> is_start pData" "\<not> (received_start P \<and> \<not> received_complete P)"
      by (simp_all add: P)
    from handleNotification_idle [OF P(1) this, of now] show ?thesis
      unfolding e by (simp add: P_def)
  qed
  from e have e': "deliver (parseData s0) (cs @ [(now, pData)]) =
         handleNotification ((parseData s0)\<lparr>ignoreNotifyCount := 0\<rparr>) now pData"
    by (simp only: P_def)
  from ten pre e' c1 c2 c3 c4 show ?thesis by blast
qed

theorem throttle_drops_ten_witness:
  "length (replicate 10 (3 :: u32, start8)) = 10
   \<and> deliver fresh [(0, head299 0x02), (1, [9, 9, 9, 9])] = Some (parseData (full300 0x02))
   \<and> deliver (parseData (full300 0x02)) (take 4 (replicate 10 (3, start8))) =
         Some ((parseData (full300 0x02))\<lparr>lastNotifyTime := 3, ignoreNotifyCount := 6\<rparr>)
   \<and> deliver (parseData (full300 0x02)) (replicate 10 (3, start8) @ [(4, [1])]) =
         Some ((parseData (full300 0x02))\<lparr>ignoreNotifyCount := 0, lastNotifyTime := 4\<rparr>)
   \<and> 4 \<le> length start8 \<and> is_start start8 \<and> length (receivedBytes (full300 0x02)) = 320
   \<and> deliver (parseData (full300 0x02)) (replicate 10 (3, start8) @ [(4, start8)]) =
         Some ((parseData (full300 0x02))\<lparr>ignoreNotifyCount := 0, lastNotifyTime := 4,
                 frame := 8, received_start := True, received_complete := False,
                 receivedBytes := start8 @ drop 8 (receivedBytes (full300 0x02))\<rparr>)
   \<and> \<not> is_start [9, 9, 9, 9 :: u8]
   \<and> \<not> (received_start (full300 0x02) \<and> \<not> received_complete (full300 0x02))
   \<and> deliver (parseData (full300 0x02)) (replicate 10 (3, start8) @ [(4, [9, 9, 9, 9])]) =
         Some ((parseData (full300 0x02))\<lparr>ignoreNotifyCount := 0, lastNotifyTime := 4\<rparr>)
   \<and> received_start pending8 \<and> \<not> received_complete pending8 \<and> 0 \<le> frame pending8
   \<and> frame pending8 < 300 \<and> length (receivedBytes pending8) = 320
   \<and> deliver (parseData pending8) (replicate 10 (3, start8) @ [(4, [9, 9, 9, 9])]) =
         Some ((parseData pending8)\<lparr>ignoreNotifyCount := 0, lastNotifyTime := 4,
                 receivedBytes := start8 @ [9, 9, 9, 9] @ replicate 308 0,
                 frame := 12\<rparr>)"
proof -
  let ?cs = "replicate 10 (3 :: u32, start8)"
  have l: "length ?cs = 10" by simp
  have dec: "deliver fresh [(0, head299 0x02), (1, [9, 9, 9, 9])] = Some (parseData (full300 0x02))"
    by (simp only: deliver_two_chunks) (simp add: dispatch_def full300_type)
  have s8: "4 \<le> length start8" "is_start start8" "length start8 = 8"
    by (simp_all add: start8_def is_start_def)
  have n9: "\<not> is_start [9, 9, 9, 9 :: u8]" "4 \<le> length [9, 9, 9, 9 :: u8]"
    by (simp_all add: is_start_def)
  have idle: "\<not> (received_start (full300 0x02) \<and> \<not> received_complete (full300 0x02))"
    by (simp add: full300_facts)
  note len = full300_facts(1) [of 2]
  from throttle_drops_ten [OF l, of "full300 0x02" 4 start8]
  have "\<forall>k\<le>10. deliver (parseData (full300 0x02)) (take k ?cs) =
           Some ((parseData (full300 0x02))\<lparr>lastNotifyTime :=
                     last (lastNotifyTime (full300 0x02) # map fst (take k ?cs)),
                   ignoreNotifyCount := 10 - int k\<rparr>)"
    by (rule conjunct2 [THEN conjunct1])
  then have "deliver (parseData (full300 0x02)) (take 4 ?cs) =
           Some ((parseData (full300 0x02))\<lparr>lastNotifyTime :=
                     last (lastNotifyTime (full300 0x02) # map fst (take 4 ?cs)),
                   ignoreNotifyCount := 10 - int 4\<rparr>)"
    by (rule allE [where x = 4]) simp
  then have b4: "deliver (parseData (full300 0x02)) (take 4 ?cs) =
         Some ((parseData (full300 0x02))\<lparr>lastNotifyTime := 3, ignoreNotifyCount := 6\<rparr>)"
    by simp
  have sh: "deliver (parseData (full300 0x02)) (?cs @ [(4, [1])]) =
         Some ((parseData (full300 0x02))\<lparr>ignoreNotifyCount := 0, lastNotifyTime := 4\<rparr>)"
    using throttle_drops_ten [OF l, of "full300 0x02" 4 "[1]",
            THEN conjunct2, THEN conjunct2, THEN conjunct2, THEN conjunct1]
    by simp
  have st: "deliver (parseData (full300 0x02)) (?cs @ [(4, start8)]) =
         Some ((parseData (full300 0x02))\<lparr>ignoreNotifyCount := 0, lastNotifyTime := 4,
                 frame := 8, received_start := True, received_complete := False,
                 receivedBytes := start8 @ drop 8 (receivedBytes (full300 0x02))\<rparr>)"
    using throttle_drops_ten [OF l, of "full300 0x02" 4 start8,
            THEN conjunct2, THEN conjunct2, THEN conjunct2, THEN conjunct2, THEN conjunct1]
      s8 len
    by simp
  have idl: "deliver (parseData (full300 0x02)) (?cs @ [(4, [9, 9, 9, 9])]) =
         Some ((parseData (full300 0x02))\<lparr>ignoreNotifyCount := 0, lastNotifyTime := 4\<rparr>)"
    using throttle_drops_ten [OF l, of "full300 0x02" 4 "[9, 9, 9, 9]",
            THEN conjunct2, THEN conjunct2, THEN conjunct2, THEN conjunct2, THEN conjunct2,
            THEN conjunct2]
      n9 idle
    by simp
  have "deliver (parseData pending8) (?cs @ [(4, [9, 9, 9, 9])]) =
         Some ((parseData pending8)\<lparr>ignoreNotifyCount := 0, lastNotifyTime := 4,
                 receivedBytes := take 8 (receivedBytes pending8) @ [9, 9, 9, 9]
                     @ drop 12 (receivedBytes pending8),
                 frame := 12\<rparr>)"
    using throttle_drops_ten [OF l, of pending8 4 "[9, 9, 9, 9]",
            THEN conjunct2, THEN conjunct2, THEN conjunct2, THEN conjunct2, THEN conjunct2,
            THEN conjunct1]
      n9 pending8_facts
    by simp
  moreover have "take 8 (receivedBytes pending8) @ [9, 9, 9, 9]
                     @ drop 12 (receivedBytes pending8)
                   = start8 @ [9, 9, 9, 9] @ replicate 308 0"
    by (simp add: pending8_def start8_def)
  ultimately have co: "deliver (parseData pending8) (?cs @ [(4, [9, 9, 9, 9])]) =
         Some ((parseData pending8)\<lparr>ignoreNotifyCount := 0, lastNotifyTime := 4,
                 receivedBytes := start8 @ [9, 9, 9, 9] @ replicate 308 0,
                 frame := 12\<rparr>)"
    by (simp only:)
  from l dec b4 sh s8(1,2) len st n9(1) idle idl pending8_facts(1,2,3,4,6) co
  show ?thesis by (intro conjI)
qed

section \<open>A completed cell-data frame\<close>

lemma append_chunk_True_new_data:
  "append_chunk s bs = Some (t, True) \<Longrightarrow> new_data t"
proof (induction bs arbitrary: s)
  case Nil
  then show ?case by simp
next
  case (Cons b bs)
  then show ?case
    by (auto simp add: put_byte_def split: if_splits option.splits)
qed

lemma reassemble_True_new_data:
  "reassemble s now pData = Some (t, True) \<Longrightarrow> new_data t"
  by (auto simp add: reassemble_def Let_def append_chunk_True_new_data
        split: if_splits option.splits)

text \<open>
  Whenever a call completes a frame whose type byte is \<open>0x02\<close>, \<^verbatim>\<open>new_data\<close> is set as
  the frame completes, the cell-data decoder runs and clears it again, and the call
  returns with \<^verbatim>\<open>new_data\<close> false and the throttle counter at 10.
\<close>

lemma celldata_frame_decoded:
  assumes "reassemble s now pData = Some (t, True)" and "receivedBytes t ! 4 = 0x02"
  shows "new_data t
    \<and> (\<exists>s'. handleNotification s now pData = Some s' \<and> s' = parseData t
            \<and> \<not> new_data s' \<and> ignoreNotifyCount s' = 10)"
proof -
  have "handleNotification s now pData = Some (parseData t)"
    using assms by (simp add: handleNotification_def dispatch_def)
  moreover have "\<not> new_data (parseData t)" "ignoreNotifyCount (parseData t) = 10"
    by (simp_all add: parseData_def Let_def)
  ultimately show ?thesis
    using reassemble_True_new_data [OF assms(1)] by simp
qed

text \<open>
  C4. The claim holds of the throttle and fails of the flag. A new device receives the
  first 299 bytes of a cell-data frame and then the chunk that completes it. The second
  call sets \<^verbatim>\<open>new_data\<close> when the frame completes (line 265) and hands the frame to
  the cell-data decoder, whose first statement clears the flag (line 455): when the call
  returns, \<^verbatim>\<open>new_data\<close> is false and the throttle counter is 10. The same two
  deliveries with a settings frame (type \<open>0x01\<close>) return with \<^verbatim>\<open>new_data\<close> true.
\<close>

theorem celldata_frame_new_data_false:
  "deliver fresh [(0, head299 0x02), (1, [9, 9, 9, 9])] = Some (parseData (full300 0x02))
   \<and> new_data (full300 0x02)
   \<and> map_option new_data (deliver fresh [(0, head299 0x02), (1, [9, 9, 9, 9])]) = Some False
   \<and> map_option ignoreNotifyCount (deliver fresh [(0, head299 0x02), (1, [9, 9, 9, 9])])
       = Some 10
   \<and> map_option new_data (deliver fresh [(0, head299 0x01), (1, [9, 9, 9, 9])]) = Some True"
proof -
  have a: "deliver fresh [(0, head299 0x02), (1, [9, 9, 9, 9])] = Some (parseData (full300 0x02))"
    by (simp only: deliver_two_chunks) (simp add: dispatch_def full300_type)
  have b: "deliver fresh [(0, head299 0x01), (1, [9, 9, 9, 9])]
             = Some (bms_settings (full300 0x01))"
    by (simp only: deliver_two_chunks) (simp add: dispatch_def full300_type)
  have c: "new_data (bms_settings (full300 0x01))"
    by (simp add: bms_settings_def Let_def full300_facts)
  show ?thesis
    by (simp only: a b option.map parseData_keeps full300_facts c)
qed

section \<open>A completed frame of unknown type\<close>

text \<open>
  C8. In every state that deliveries to a new device lead to, a call that completes a
  frame whose type byte is none of \<open>0x01\<close>, \<open>0x02\<close>, \<open>0x03\<close> runs no decoder (the
  \<^verbatim>\<open>switch\<close> leaves the state as it is): the state it returns differs from the state before the call only in the time stamp, the buffer,
  the cursor and the three flags, so every decoded field keeps its value. The
  reassembler is then ready for the next frame: any chunk of at least 4 bytes that
  begins with the start sequence is taken as the start of a new frame.
\<close>

theorem unknown_frame_type_dropped:
  assumes "deliver (JKBMS_init up0 sec0 mi0 hr0 days0) cs = Some s"
    and "reassemble s now pData = Some (t, True)"
    and "receivedBytes t ! 4 \<notin> {0x01, 0x02, 0x03}"
  shows "dispatch t = t
     \<and> handleNotification s now pData = Some t
     \<and> t = s\<lparr>lastNotifyTime := now, receivedBytes := receivedBytes t, frame := 300,
              received_complete := True, received_start := False, new_data := True\<rparr>
     \<and> (\<forall>now' c'. 4 \<le> length c' \<and> is_start c' \<longrightarrow>
           handleNotification t now' c' =
             Some (t\<lparr>lastNotifyTime := now', frame := min (int (length c')) 300,
                     received_start := True, received_complete := False,
                     receivedBytes := take (min (length c') 300) c'
                                        @ drop (min (length c') 300) (receivedBytes t)\<rparr>))"
proof -
  from deliver_wf [OF wf_state_init, of up0 sec0 mi0 hr0 days0 cs] assms(1)
  have wf: "wf_state s" by auto
  note rt = reassemble_True [OF wf assms(2)]
  from rt have ign: "ignoreNotifyCount s \<le> 0" by blast
  from rt have t: "t = s\<lparr>lastNotifyTime := now,
                 receivedBytes := take (nat (frame s)) (receivedBytes s)
                                      @ take (300 - nat (frame s)) pData
                                      @ drop 300 (receivedBytes s),
                 frame := 300,
                 received_complete := True, received_start := False, new_data := True\<rparr>"
    by blast
  have t': "t = s\<lparr>lastNotifyTime := now, receivedBytes := receivedBytes t, frame := 300,
              received_complete := True, received_start := False, new_data := True\<rparr>"
  proof -
    have rbt: "receivedBytes t = take (nat (frame s)) (receivedBytes s)
                                      @ take (300 - nat (frame s)) pData
                                      @ drop 300 (receivedBytes s)"
      by (subst t) simp
    show ?thesis unfolding rbt by (rule t)
  qed
  have dt: "dispatch t = t"
    using assms(3) by (simp add: dispatch_def)
  then have h: "handleNotification s now pData = Some t"
    using assms(2) by (simp add: handleNotification_def)
  from reassemble_wf [OF wf, of now pData] assms(2)
  have "wf_state t" by simp
  then have len: "length (receivedBytes t) = 320" by (simp add: wf_state_def)
  have ign': "ignoreNotifyCount t \<le> 0"
    using ign by (subst t) simp
  have nxt: "handleNotification t now' c' =
             Some (t\<lparr>lastNotifyTime := now', frame := min (int (length c')) 300,
                     received_start := True, received_complete := False,
                     receivedBytes := take (min (length c') 300) c'
                                        @ drop (min (length c') 300) (receivedBytes t)\<rparr>)"
    if "4 \<le> length c'" "is_start c'" for now' c'
    by (rule handleNotification_start [OF ign' that len])
  show ?thesis
    using dt h t' nxt by blast
qed

theorem unknown_frame_type_dropped_witness:
  "deliver (JKBMS_init 0 0 0 0 0) [(0, head299 0x07)] = Some (pending299 0x07)
   \<and> reassemble (pending299 0x07) 1 [9, 9, 9, 9] = Some (full300 0x07, True)
   \<and> receivedBytes (full300 0x07) ! 4 \<notin> {0x01, 0x02, 0x03}
   \<and> 4 \<le> length start8 \<and> is_start start8
   \<and> handleNotification (pending299 0x07) 1 [9, 9, 9, 9] = Some (full300 0x07)
   \<and> handleNotification (full300 0x07) 2 start8 =
         Some ((full300 0x07)\<lparr>lastNotifyTime := 2, frame := 8,
                 received_start := True, received_complete := False,
                 receivedBytes := start8 @ drop 8 (receivedBytes (full300 0x07))\<rparr>)"
proof -
  have d: "deliver (JKBMS_init 0 0 0 0 0) [(0, head299 0x07)] = Some (pending299 0x07)"
    using deliver_head299 [of 7] by (simp only: fresh_def)
  have r: "reassemble (pending299 0x07) 1 [9, 9, 9, 9] = Some (full300 0x07, True)"
    by (rule reassemble_pending299)
  have ty: "receivedBytes (full300 0x07) ! 4 \<notin> {0x01, 0x02, 0x03}"
    by (simp add: full300_type)
  have s8: "4 \<le> length start8" "is_start start8" "length start8 = 8"
    by (simp_all add: start8_def is_start_def)
  from unknown_frame_type_dropped [OF d r ty] s8
  have "handleNotification (pending299 0x07) 1 [9, 9, 9, 9] = Some (full300 0x07)"
    and "handleNotification (full300 0x07) 2 start8 =
         Some ((full300 0x07)\<lparr>lastNotifyTime := 2, frame := min (int (length start8)) 300,
                 received_start := True, received_complete := False,
                 receivedBytes := take (min (length start8) 300) start8
                                    @ drop (min (length start8) 300)
                                        (receivedBytes (full300 0x07))\<rparr>)"
    by blast+
  with d r ty s8 show ?thesis by simp
qed

section \<open>Bytes, nibbles and signed values\<close>

lemma or_add8: "push_bit 8 (x :: u32) OR ucast (b :: u8) = push_bit 8 x + ucast b"
proof -
  have "push_bit 8 x AND ucast b = 0"
    by (rule bit_eqI) (auto simp: bit_simps dest: bit_imp_le_length)
  then show ?thesis by (simp add: disjunctive_add_eq_or)
qed

lemma numeral_F0_mask: "(0xF0 :: 'a::len word) = push_bit 4 (mask 4)"
  by (simp add: mask_eq_exp_minus_1 push_bit_eq_mult)

lemma numeral_0F_mask: "(0x0F :: 'a::len word) = mask 4"
  by (simp add: mask_eq_exp_minus_1)

lemma uint_byte: "0 \<le> uint (b :: u8) \<and> uint b < 256"
  using uint_lt2p [of b] by simp

lemma hi_nibble_0: "(b :: u8) AND 0xF0 = 0 \<longleftrightarrow> drop_bit 4 b = 0"
  unfolding numeral_F0_mask
  apply (auto simp add: bit_eq_iff bit_simps dest: bit_imp_le_length)
  subgoal for n
    by (frule bit_imp_le_length) (drule spec [of _ "4 + n"], simp)
  done

lemma hi_nibble_F: "(b :: u8) AND 0xF0 = 0xF0 \<longleftrightarrow> drop_bit 4 b = 0xF"
  unfolding numeral_F0_mask numeral_0F_mask
  apply (auto simp add: bit_eq_iff bit_simps dest: bit_imp_le_length)
  subgoal for n
    by (drule spec [of _ "4 + n"]) simp
  done

lemma sint_small:
  "0 \<le> k \<Longrightarrow> k < 65536 \<Longrightarrow> sint (word_of_int k :: u32) = k"
  by (simp only: signed_of_int) (simp add: signed_take_bit_int_eq_self)

lemma sint16: "sint (push_bit 8 (ucast hi) OR ucast lo :: u32) = 256 * uint (hi::u8) + uint (lo::u8)"
proof -
  have e: "(word_of_int (256 * uint hi + uint lo) :: u32) = push_bit 8 (ucast hi) + ucast lo"
    by (simp add: push_bit_eq_mult)
  have "0 \<le> uint hi" "0 \<le> uint lo" by simp_all
  with uint_byte [of hi] uint_byte [of lo]
  have "0 \<le> 256 * uint hi + uint lo" "256 * uint hi + uint lo < 65536" by linarith+
  from sint_small [OF this] show ?thesis
    by (simp only: or_add8 e)
qed

lemma sint_neg16:
  "sint (push_bit 24 0xFF OR push_bit 16 0xFF OR push_bit 8 (ucast (0xFF :: u8)) OR ucast lo :: u32)
     = uint (lo :: u8) - 256"
proof -
  have "push_bit 24 0xFF OR push_bit 16 0xFF OR push_bit 8 (ucast (0xFF :: u8)) OR ucast lo
          = push_bit 8 (0xFFFFFF :: u32) OR ucast lo"
    by (simp add: push_bit_eq_mult flip: or.assoc)
  also have "\<dots> = push_bit 8 (0xFFFFFF :: u32) + ucast lo"
    by (rule or_add8)
  also have "\<dots> = (word_of_int (uint lo - 256) :: u32)"
    by (simp add: push_bit_eq_mult)
  finally have "sint (push_bit 24 0xFF OR push_bit 16 0xFF OR push_bit 8 (ucast (0xFF :: u8))
                   OR ucast lo :: u32) = signed_take_bit 31 (uint lo - 256)"
    by (simp only: signed_of_int) simp
  moreover have "signed_take_bit 31 (uint lo - 256) = uint lo - 256"
  proof -
    have "0 \<le> uint lo" by simp
    with uint_byte [of lo] show ?thesis
      by (intro signed_take_bit_int_eq_self; simp; linarith)
  qed
  ultimately show ?thesis by simp
qed

lemma cat16: "(word_cat (hi :: u8) (lo :: u8) :: 16 word) = word_of_int (256 * uint hi + uint lo)"
  by (simp add: word_cat_eq push_bit_eq_mult)

lemma cat16_uint: "uint (word_cat (hi :: u8) (lo :: u8) :: 16 word) = 256 * uint hi + uint lo"
proof -
  have "0 \<le> uint hi" "0 \<le> uint lo" by simp_all
  with uint_byte [of hi] uint_byte [of lo]
  have "0 \<le> 256 * uint hi + uint lo" "256 * uint hi + uint lo < 65536" by linarith+
  then show ?thesis
    by (simp only: cat16 uint_word_of_int_eq) (simp add: take_bit_int_eq_self)
qed

lemma cat16_sint: "sint (word_cat (0xFF :: u8) (lo :: u8) :: 16 word) = uint lo - 256"
proof -
  have "(word_cat (0xFF :: u8) lo :: 16 word) = word_of_int (uint lo - 256)"
    by (simp add: cat16)
  moreover have "signed_take_bit 15 (uint lo - 256) = uint lo - 256"
  proof -
    have "0 \<le> uint lo" by simp
    with uint_byte [of lo] show ?thesis
      by (intro signed_take_bit_int_eq_self; simp; linarith)
  qed
  ultimately show ?thesis
    by (simp only: signed_of_int) simp
qed

lemma unat_ucast_u8: "unat (ucast (b :: u8) :: u32) = unat b"
  using unsigned_less [of b, where 'a = nat]
  by (simp add: unsigned_ucast_eq take_bit_nat_eq_self)

lemma ucast_u8_inj: "(ucast (b :: u8) :: u32) = ucast (c :: u8) \<longleftrightarrow> b = c"
  by (metis unat_ucast_u8 word_unat_eq_iff)

lemma and_F0_ucast: "(ucast (b::u8) AND 0xF0 :: u32) = ucast (b AND 0xF0)"
  unfolding numeral_F0_mask
  by (rule bit_eqI) (auto simp add: bit_simps)

lemma and_0F_ucast: "(ucast (b::u8) AND 0x0F :: u32) = ucast (b AND 0x0F)"
  unfolding numeral_0F_mask
  by (rule bit_eqI) (auto simp add: bit_simps)

lemma nibble_test_0: "(ucast (b :: u8) AND 0xF0 :: u32) = 0 \<longleftrightarrow> drop_bit 4 b = 0"
  using ucast_u8_inj [of "b AND 0xF0" 0]
  by (simp add: and_F0_ucast hi_nibble_0)

lemma nibble_test_F: "(ucast (b :: u8) AND 0xF0 :: u32) = 0xF0 \<longleftrightarrow> drop_bit 4 b = 0xF"
  using ucast_u8_inj [of "b AND 0xF0" "0xF0"]
  by (simp add: and_F0_ucast hi_nibble_F)

lemma scaled16:
  "scaled (push_bit 8 (ucast hi) OR ucast lo) k
     = real_of_int (uint (word_cat (hi :: u8) (lo :: u8) :: 16 word)) * k"
  by (simp add: scaled_def sint16 cat16_uint)
lemma sint_scast16: "sint (scast (w :: 16 word) :: u32) = sint w"
  by (simp add: sint_up_scast is_up)

lemma scaled_neg16:
  "scaled (push_bit 24 0xFF OR push_bit 16 0xFF OR push_bit 8 (ucast (0xFF :: u8)) OR ucast lo) k
     = real_of_int (sint (scast (word_cat (0xFF :: u8) (lo :: u8) :: 16 word) :: u32)) * k"
  by (simp only: scaled_def sint_neg16 sint_scast16 cat16_sint)
lemma temp_at_spec: "temp_at rb i = spec_temperature (rb ! i) (rb ! (i + 1))"
proof (cases "rb ! (i + 1) = 0xFF")
  case True
  then show ?thesis
    by (simp only: temp_at_def spec_temperature_def scaled_neg16 simp_thms if_True)
next
  case False
  then show ?thesis
    by (simp add: temp_at_def spec_temperature_def int16_at_def scaled16)
qed

section \<open>The balancing current\<close>

text \<open>
  C6. For every frame the cell-data decoder sets \<^verbatim>\<open>Balance_Curr\<close> by the rule of the
  specification, \<open>spec_balance_current\<close>: by the high nibble of byte 171 it is the
  positive value, the negative value of the low 12 bits, or the value it had before.
  Bytes \<open>[0x64, 0x00]\<close> give 0.1 and bytes \<open>[0x64, 0xF0]\<close> give -0.1.
\<close>

theorem parseData_Balance_Curr:
  "Balance_Curr (parseData s) =
     spec_balance_current (receivedBytes s ! 170) (receivedBytes s ! 171) (Balance_Curr s)
   \<and> spec_balance_current 0x64 0x00 previous = 1 / 10
   \<and> spec_balance_current 0x64 0xF0 previous = - (1 / 10)"
proof -
  have "Balance_Curr (parseData s) =
     spec_balance_current (receivedBytes s ! 170) (receivedBytes s ! 171) (Balance_Curr s)"
    by (simp add: parseData_def Let_def spec_balance_current_def nibble_test_0 nibble_test_F
          and_0F_ucast scaled16)
  moreover have "spec_balance_current 0x64 0x00 previous = 1 / 10"
    and "spec_balance_current 0x64 0xF0 previous = - (1 / 10)"
    by (simp_all add: spec_balance_current_def cat16_uint drop_bit_eq_div)
  ultimately show ?thesis by (intro conjI)
qed

lemma with_bytes_nth:
  "i < 319 \<Longrightarrow> receivedBytes (with_bytes i lo hi) ! i = lo"
  "i < 319 \<Longrightarrow> receivedBytes (with_bytes i lo hi) ! (i + 1) = hi"
  by (simp_all add: with_bytes_def)

theorem parseData_Balance_Curr_witness:
  "Balance_Curr (parseData (with_bytes 170 0x64 0x00)) = 1 / 10
   \<and> Balance_Curr (parseData (with_bytes 170 0x64 0xF0)) = - (1 / 10)
   \<and> Balance_Curr (parseData ((with_bytes 170 0x64 0x30)\<lparr>Balance_Curr := 7\<rparr>)) = 7"
proof -
  have n: "receivedBytes (with_bytes 170 lo hi) ! 170 = lo"
    "receivedBytes (with_bytes 170 lo hi) ! 171 = hi" for lo hi
    using with_bytes_nth [of 170 lo hi] by simp_all
  have o: "spec_balance_current 0x64 0x30 7 = 7"
    by (simp add: spec_balance_current_def drop_bit_eq_div)
  from parseData_Balance_Curr [of "with_bytes 170 0x64 0x00"]
    parseData_Balance_Curr [of "with_bytes 170 0x64 0xF0"]
    parseData_Balance_Curr [of "(with_bytes 170 0x64 0x30)\<lparr>Balance_Curr := 7\<rparr>"]
  show ?thesis by (simp add: n o)
qed

section \<open>The temperatures\<close>

text \<open>
  C7. For every frame the cell-data decoder sets the MOS temperature (bytes 144-145) and
  the battery temperatures T1 (bytes 162-163) and T2 (bytes 164-165) by the rule of the
  specification, \<open>spec_temperature\<close>: sign extension when the high byte is exactly
  \<open>0xFF\<close>, the positive 16-bit value for every other high byte. Bytes \<open>[0x38, 0xFF]\<close>
  give -20; with the high byte \<open>0xFE\<close> the same low byte gives the positive 6508.
\<close>

theorem parseData_temperatures:
  "MOS_Temp (parseData s) = spec_temperature (receivedBytes s ! 144) (receivedBytes s ! 145)
   \<and> Battery_T1 (parseData s)
       = spec_temperature (receivedBytes s ! 162) (receivedBytes s ! 163)
   \<and> Battery_T2 (parseData s)
       = spec_temperature (receivedBytes s ! 164) (receivedBytes s ! 165)
   \<and> spec_temperature 0x38 0xFF = - 20
   \<and> spec_temperature 0x38 0xFE = 6508"
proof -
  have "MOS_Temp (parseData s)
          = spec_temperature (receivedBytes s ! 144) (receivedBytes s ! 145)"
    and "Battery_T1 (parseData s)
          = spec_temperature (receivedBytes s ! 162) (receivedBytes s ! 163)"
    and "Battery_T2 (parseData s)
          = spec_temperature (receivedBytes s ! 164) (receivedBytes s ! 165)"
    by (simp_all add: parseData_def Let_def temp_at_spec)
  moreover have "spec_temperature 0x38 0xFF = - 20"
    by (simp add: spec_temperature_def sint_scast16 cat16_sint)
  moreover have "spec_temperature 0x38 0xFE = 6508"
    by (simp add: spec_temperature_def cat16_uint)
  ultimately show ?thesis by (intro conjI)
qed

theorem parseData_temperatures_witness:
  "MOS_Temp (parseData (with_bytes 144 0x38 0xFF)) = - 20
   \<and> Battery_T1 (parseData (with_bytes 162 0x38 0xFF)) = - 20
   \<and> Battery_T2 (parseData (with_bytes 164 0x38 0xFE)) = 6508"
proof -
  from parseData_temperatures [of "with_bytes 144 0x38 0xFF"]
    parseData_temperatures [of "with_bytes 162 0x38 0xFF"]
    parseData_temperatures [of "with_bytes 164 0x38 0xFE"]
    with_bytes_nth [of 144 "0x38" "0xFF"] with_bytes_nth [of 162 "0x38" "0xFF"]
    with_bytes_nth [of 164 "0x38" "0xFE"]
  show ?thesis by simp
qed

section \<open>Safety of the cursor\<close>

text \<open>
  C9. Whatever chunks are delivered to a newly constructed device, in whatever number,
  no call writes outside the buffer (the sequence never ends in \<open>None\<close>), the cursor
  stays between 0 and 300, and the bytes at indices 300 to 319 are never written: they
  still hold the zeros of the constructor, whatever the chunks contained. So every
  write through the cursor is at an index below 300.
\<close>

theorem cursor_within_frame:
  "\<exists>s'. deliver (JKBMS_init up0 sec0 mi0 hr0 days0) cs = Some s'
        \<and> 0 \<le> frame s' \<and> frame s' \<le> 300
        \<and> length (receivedBytes s') = 320
        \<and> drop 300 (receivedBytes s') = replicate 20 0"
proof -
  from deliver_wf [OF wf_state_init, of up0 sec0 mi0 hr0 days0 cs]
  show ?thesis by (auto simp add: wf_state_def JKBMS_init_def)
qed

section \<open>The state at dispatch\<close>

text \<open>
  C10. In every state that a sequence of deliveries to a newly constructed device leads
  to, a call of the handler that reaches the \<^verbatim>\<open>switch\<close>, and so a decoder, does so
  with the cursor at exactly 300 and the start sequence \<open>55 AA EB 90\<close> in bytes 0 to 3
  of the buffer.
\<close>

theorem dispatch_on_full_frame:
  assumes "deliver (JKBMS_init up0 sec0 mi0 hr0 days0) cs = Some s"
    and "reassemble s now pData = Some (t, True)"
  shows "frame t = 300 \<and> take 4 (receivedBytes t) = [0x55, 0xAA, 0xEB, 0x90]"
proof -
  from deliver_wf [OF wf_state_init, of up0 sec0 mi0 hr0 days0 cs] assms(1)
  have "wf_state s" by auto
  from reassemble_True [OF this assms(2)] show ?thesis by blast
qed

theorem dispatch_on_full_frame_witness:
  "deliver (JKBMS_init 0 0 0 0 0) [(0, head299 0x02)] = Some (pending299 0x02)
   \<and> reassemble (pending299 0x02) 1 [9, 9, 9, 9] = Some (full300 0x02, True)
   \<and> frame (full300 0x02) = 300
   \<and> take 4 (receivedBytes (full300 0x02)) = [0x55, 0xAA, 0xEB, 0x90]"
proof -
  have d: "deliver (JKBMS_init 0 0 0 0 0) [(0, head299 0x02)] = Some (pending299 0x02)"
    using deliver_head299 [of 2] by (simp only: fresh_def)
  have r: "reassemble (pending299 0x02) 1 [9, 9, 9, 9] = Some (full300 0x02, True)"
    by (rule reassemble_pending299)
  from dispatch_on_full_frame [OF d r] d r show ?thesis by blast
qed

end
